(* ===== verification/Prelude.thy ===== *)
theory Prelude
  imports Main "HOL-Library.Word"
begin

text \<open>
  Shared vocabulary of the development. The machine types of the C source
  (\<open>unsigned char\<close>, \<open>unsigned short\<close>, \<open>size_t\<close> on an LP64 target) are words
  of their width; a computation that may fail (undefined behaviour of C) returns a
  value of \<open>c_error + 'a\<close>, threaded with \<open>cbind\<close>, whose congruence rule lets
  the function package see the guard of each recursive call. The word lemmas here
  (promotion of a byte to \<open>int\<close>, the XOR of two promoted bytes, \<open>size_t\<close>
  wrap-around of \<open>i - 1\<close>) are used by every component.
\<close>

unbundle bit_operations_syntax

type_synonym u8 = "8 word"
type_synonym u16 = "16 word"
type_synonym size_t = "64 word"

named_theorems c_simps "evaluation rules of the C model, used to run it on concrete strings"

subsection \<open>Sequencing of fallible computations\<close>

definition cbind :: "'e + 'a \<Rightarrow> ('a \<Rightarrow> 'e + 'b) \<Rightarrow> 'e + 'b" where
  "cbind m f = (case m of Inl e \<Rightarrow> Inl e | Inr x \<Rightarrow> f x)"

lemma cbind_Inl [simp, c_simps]: "cbind (Inl e) f = Inl e"
  by (simp add: cbind_def)

lemma cbind_Inr [simp, c_simps]: "cbind (Inr x) f = f x"
  by (simp add: cbind_def)

lemma cbind_cong [fundef_cong]:
  "m = m' \<Longrightarrow> (\<And>x. m' = Inr x \<Longrightarrow> f x = g x) \<Longrightarrow> cbind m f = cbind m' g"
  unfolding cbind_def by (auto split: sum.split)

lemma cbind_eq_Inr:
  "cbind m f = Inr y \<longleftrightarrow> (\<exists>x. m = Inr x \<and> f x = Inr y)"
  by (cases m) simp_all

lemma cbind_eq_Inl:
  "cbind m f = Inl e \<longleftrightarrow> m = Inl e \<or> (\<exists>x. m = Inr x \<and> f x = Inl e)"
  by (cases m) simp_all

subsection \<open>Bytes promoted to \<open>int\<close>\<close>

lemma uint_u8_less: "uint (b :: u8) < 256"
  using uint_lt2p [of b] by simp

lemma unat_u8_less: "unat (b :: u8) < 256"
  using unsigned_less [of b, where ?'a = nat] by simp

lemma sint_u8_small: "(b :: u8) < 128 \<Longrightarrow> sint b = uint b"
proof -
  assume "b < 128"
  then have "uint b < 128"
    by (simp add: word_less_def)
  moreover have "- (2 ^ 7) \<le> uint b"
    by (rule order_trans [OF _ uint_ge_0]) simp
  ultimately have "signed_take_bit 7 (uint b) = uint b"
    by (intro signed_take_bit_int_eq_self) simp_all
  then show ?thesis
    by (simp add: sint_uint)
qed

lemma sint_u8_large: "128 \<le> (b :: u8) \<Longrightarrow> sint b = uint b - 256"
proof -
  assume "128 \<le> b"
  then have lo: "128 \<le> uint b"
    by (simp add: word_le_def)
  have hi: "uint b < 256" by (rule uint_u8_less)
  from lo hi have "uint b div 2 ^ 7 = 1" by simp
  then have "bit (uint b) 7" by (simp add: bit_iff_odd)
  moreover have "take_bit 8 (uint b) = uint b"
    using hi by (simp add: take_bit_int_eq_self)
  ultimately have "signed_take_bit 7 (uint b) = uint b - 256"
    by (simp add: signed_take_bit_eq_take_bit_minus)
  then show ?thesis
    by (simp add: sint_uint)
qed

lemma xor_uint_eq: "uint (a :: u8) XOR uint b = uint (a XOR b)"
  by (rule uint_xor [symmetric])

lemma xor_uint_range: "0 \<le> uint (a :: u8) XOR uint (b :: u8) \<and> uint a XOR uint b < 256"
  by (simp only: xor_uint_eq uint_u8_less uint_ge_0 simp_thms)

lemma nat_uint_xor: "nat (uint (a :: u8) XOR uint b) = unat (a XOR b)"
  by (simp only: xor_uint_eq unat_eq_nat_uint)

lemma xor_cancel_right [simp]: "(x XOR b = y XOR b) \<longleftrightarrow> x = (y :: 'a::len word)"
  by (metis xor.assoc xor_self_eq xor.right_neutral)

lemma xor_cancel_left [simp]: "(b XOR x = b XOR y) \<longleftrightarrow> x = (y :: 'a::len word)"
  by (metis xor.commute xor_cancel_right)

subsection \<open>\<open>size_t\<close> arithmetic\<close>

lemma unat_pred_less: "0 < (i :: 'a::len word) \<Longrightarrow> unat (i - 1) < unat i"
proof -
  assume "0 < i"
  then have "i \<noteq> 0" by simp
  then have "unat (i - 1) = unat i - 1" and "0 < unat i"
    by (simp_all add: unat_minus_one unat_gt_0)
  then show ?thesis by simp
qed

lemma sint_size_t_of_nat: "i < 2 ^ 63 \<Longrightarrow> sint (word_of_nat i :: size_t) = int i"
proof -
  assume "i < 2 ^ 63"
  then have "int i < 2 ^ 63" by simp
  moreover have "- (2 ^ 63) \<le> int i"
    by (rule order_trans [OF _ of_nat_0_le_iff]) simp
  ultimately have "signed_take_bit 63 (int i) = int i"
    by (intro signed_take_bit_int_eq_self)
  then show ?thesis
    by (simp only: signed_of_nat) simp
qed

lemma sint_size_t_pred: "0 < i \<Longrightarrow> i < 2 ^ 63 \<Longrightarrow> sint (word_of_nat i - 1 :: size_t) = int i - 1"
proof -
  assume "0 < i" "i < 2 ^ 63"
  then have "word_of_nat i - 1 = (word_of_nat (i - 1) :: size_t)"
    by (simp add: of_nat_diff)
  moreover have "i - 1 < 2 ^ 63" using \<open>i < 2 ^ 63\<close> by simp
  ultimately have "sint (word_of_nat i - 1 :: size_t) = int (i - 1)"
    by (simp only: sint_size_t_of_nat)
  then show ?thesis using \<open>0 < i\<close> by simp
qed

lemma sint_size_t_zero_pred: "sint (word_of_nat 0 - 1 :: size_t) = -1"
  by simp

end
