(* ===== verification/CRuntime.thy ===== *)
theory CRuntime
  imports Prelude
begin

text \<open>
  The parts of C that \<open>src/pearson-hashing.c\<close> relies on, modelled from the C
  standard (they are not code of the repository): the promotion of a plain
  \<open>char\<close> to \<open>int\<close>, whose signedness the standard leaves to the platform
  (\<open>char_kind\<close>); memory objects as lists of byte cells, \<open>None\<close> where the
  contents are indeterminate, with the bytes below the object given separately
  (\<open>mem_obj\<close>); reads and writes that return an error wherever C has undefined
  behaviour (\<open>obj_read\<close>, \<open>obj_write\<close>); the library calls \<open>strlen\<close>,
  \<open>malloc\<close> (which returns a null pointer when the allocator fails) and
  \<open>memcpy\<close>; and the truncating remainder \<open>%\<close> on \<open>int\<close>.
  \<open>holds_str p bs\<close> says that object \<open>p\<close> holds the NUL-terminated string
  \<open>bs\<close> at offset 0; \<open>c_str bs\<close> is the caller's array holding exactly that.
\<close>

unbundle bit_operations_syntax

subsection \<open>Plain \<open>char\<close> and its promotion to \<open>int\<close>\<close>

datatype char_kind = Signed_char | Unsigned_char

definition char_val :: "char_kind \<Rightarrow> u8 \<Rightarrow> int" where
  "char_val ck b = (case ck of Signed_char \<Rightarrow> sint b | Unsigned_char \<Rightarrow> uint b)"

definition char_ok :: "char_kind \<Rightarrow> u8 \<Rightarrow> bool" where
  "char_ok ck b \<longleftrightarrow> ck = Unsigned_char \<or> b < 128"

abbreviation chars_ok :: "char_kind \<Rightarrow> u8 list \<Rightarrow> bool" where
  "chars_ok ck bs \<equiv> list_all (char_ok ck) bs"

subsection \<open>Undefined behaviour as an error value\<close>

datatype c_error =
    Table_index int   \<comment> \<open>subscript of \<open>pearson_T\<close> outside \<open>0..255\<close>\<close>
  | Read_oob int      \<comment> \<open>read at a displacement where no byte is known\<close>
  | Read_uninit int   \<comment> \<open>read of an indeterminate byte of a heap block\<close>
  | Write_oob int     \<comment> \<open>write outside the object\<close>
  | Null_deref        \<comment> \<open>use of the null pointer \<open>malloc\<close> returned\<close>

type_synonym 'a cres = "c_error + 'a"

subsection \<open>Memory objects\<close>

record mem_obj =
  cells :: "u8 option list"
  below :: "int \<Rightarrow> u8 option"

definition obj_read :: "mem_obj \<Rightarrow> int \<Rightarrow> u8 cres" where
  "obj_read p d =
     (if 0 \<le> d \<and> d < int (length (cells p)) then
        (case cells p ! nat d of None \<Rightarrow> Inl (Read_uninit d) | Some v \<Rightarrow> Inr v)
      else if d < 0 then
        (case below p d of None \<Rightarrow> Inl (Read_oob d) | Some v \<Rightarrow> Inr v)
      else Inl (Read_oob d))"

definition obj_write :: "mem_obj \<Rightarrow> int \<Rightarrow> u8 \<Rightarrow> mem_obj cres" where
  "obj_write p d v =
     (if 0 \<le> d \<and> d < int (length (cells p))
      then Inr (p\<lparr>cells := (cells p)[nat d := Some v]\<rparr>)
      else Inl (Write_oob d))"

definition holds_str :: "mem_obj \<Rightarrow> u8 list \<Rightarrow> bool" where
  "holds_str p bs \<longleftrightarrow> take (Suc (length bs)) (cells p) = map Some (bs @ [0])"

definition c_str :: "u8 list \<Rightarrow> mem_obj" where
  "c_str bs = \<lparr>cells = map Some (bs @ [0]), below = (\<lambda>_. None)\<rparr>"

subsection \<open>\<open>strlen\<close>\<close>

function strlen_from :: "mem_obj \<Rightarrow> nat \<Rightarrow> nat cres" where
  "strlen_from p n =
     cbind (obj_read p (int n)) (\<lambda>c. if c = 0 then Inr n else strlen_from p (Suc n))"
  by pat_completeness auto
termination
  by (relation "measure (\<lambda>(p, n). length (cells p) - n)")
     (auto simp: obj_read_def split: if_splits)

declare strlen_from.simps [simp del]

definition strlen :: "mem_obj \<Rightarrow> nat cres" where
  "strlen p = strlen_from p 0"

subsection \<open>\<open>malloc\<close> and \<open>memcpy\<close>\<close>

text \<open>
  An allocator grants a block of at least the requested size: \<open>slack A n\<close> more
  bytes than asked for (the rounding of a real \<open>malloc\<close>; reading or writing
  them is still undefined in ISO C), and \<open>header A\<close> gives the bytes just below
  a fresh block (the allocator's bookkeeping), \<open>None\<close> where reading would fault.
  The contents of a fresh block are indeterminate (\<open>fresh_block\<close>). Where
  \<open>fails A n\<close> holds the request cannot be met and \<open>malloc\<close> returns a null
  pointer, \<open>None\<close>. Using a null pointer (dereferencing it, or passing it to
  \<open>memcpy\<close>, which requires valid pointers even for a length of 0) is
  undefined; \<open>deref\<close> is that first use. \<open>strict_alloc\<close> never fails, grants
  exactly the request and nothing below it: every access outside the request is
  an error, as the standard has it.
\<close>

record allocator =
  slack :: "nat \<Rightarrow> nat"
  header :: "int \<Rightarrow> u8 option"
  fails :: "nat \<Rightarrow> bool"

definition fresh_block :: "allocator \<Rightarrow> nat \<Rightarrow> mem_obj" where
  "fresh_block A n = \<lparr>cells = replicate (n + slack A n) None, below = header A\<rparr>"

definition malloc :: "allocator \<Rightarrow> nat \<Rightarrow> mem_obj option" where
  "malloc A n = (if fails A n then None else Some (fresh_block A n))"

definition deref :: "mem_obj option \<Rightarrow> mem_obj cres" where
  "deref p = (case p of None \<Rightarrow> Inl Null_deref | Some obj \<Rightarrow> Inr obj)"

definition strict_alloc :: allocator where
  "strict_alloc = \<lparr>slack = (\<lambda>_. 0), header = (\<lambda>_. None), fails = (\<lambda>_. False)\<rparr>"

text \<open>
  \<open>memcpy dst src n\<close> copies byte \<open>i\<close> for \<open>i = 0, 1, \<dots>, n - 1\<close>, reading before
  writing; the first byte that cannot be read or written is the error.
\<close>

definition memcpy :: "mem_obj \<Rightarrow> mem_obj \<Rightarrow> nat \<Rightarrow> mem_obj cres" where
  "memcpy dst src n =
     (if n \<le> length (cells src) \<and> n \<le> length (cells dst)
      then Inr (dst\<lparr>cells := take n (cells src) @ drop n (cells dst)\<rparr>)
      else if length (cells src) \<le> length (cells dst)
      then Inl (Read_oob (int (length (cells src))))
      else Inl (Write_oob (int (length (cells dst)))))"

subsection \<open>Truncating remainder\<close>

definition c_rem :: "int \<Rightarrow> int \<Rightarrow> int" where
  "c_rem a b = sgn a * (\<bar>a\<bar> mod \<bar>b\<bar>)"

subsection \<open>Reading a string held by an object\<close>

lemma holds_str_c_str [simp]: "holds_str (c_str bs) bs"
  by (simp add: holds_str_def c_str_def)

lemma holds_str_prefix: "holds_str (c_str (xs @ 0 # ys)) xs"
  by (simp add: holds_str_def c_str_def)

lemma holds_str_length: "holds_str p bs \<Longrightarrow> Suc (length bs) \<le> length (cells p)"
proof -
  assume "holds_str p bs"
  then have "length (take (Suc (length bs)) (cells p)) = Suc (length bs)"
    by (simp add: holds_str_def)
  then show ?thesis by simp
qed

lemma holds_str_nth: "holds_str p bs \<Longrightarrow> k \<le> length bs \<Longrightarrow> cells p ! k = Some ((bs @ [0]) ! k)"
proof -
  assume h: "holds_str p bs" and k: "k \<le> length bs"
  then have "take (Suc (length bs)) (cells p) ! k = map Some (bs @ [0]) ! k"
    by (simp add: holds_str_def)
  with k show ?thesis
    by (simp add: nth_append del: append.simps)
qed

lemma holds_str_read: "holds_str p bs \<Longrightarrow> k < length bs \<Longrightarrow> obj_read p (int k) = Inr (bs ! k)"
  using holds_str_length [of p bs] holds_str_nth [of p bs k]
  by (simp add: obj_read_def nth_append)

lemma holds_str_read_nul: "holds_str p bs \<Longrightarrow> obj_read p (int (length bs)) = Inr 0"
  using holds_str_length [of p bs] holds_str_nth [of p bs "length bs"]
  by (simp add: obj_read_def)

subsection \<open>\<open>strlen\<close> finds the terminator\<close>

lemma strlen_from_holds_str:
  "holds_str p bs \<Longrightarrow> k \<le> length bs \<Longrightarrow> 0 \<notin> set (drop k bs) \<Longrightarrow> strlen_from p k = Inr (length bs)"
proof (induction p k rule: strlen_from.induct)
  case (1 p n)
  show ?case
  proof (cases "n < length bs")
    case True
    with "1.prems"(3) have nz: "bs ! n \<noteq> 0"
      by (metis Cons_nth_drop_Suc list.set_intros(1))
    from True "1.prems"(3) have "0 \<notin> set (drop (Suc n) bs)"
      by (metis Cons_nth_drop_Suc list.set_intros(2))
    with True "1.prems"(1) nz "1.IH" [of "bs ! n"] show ?thesis
      by (simp add: strlen_from.simps [of p n] holds_str_read)
  next
    case False
    with "1.prems"(2) have "n = length bs" by simp
    with "1.prems"(1) show ?thesis
      by (simp add: strlen_from.simps [of p "length bs"] holds_str_read_nul)
  qed
qed

lemma strlen_holds_str: "holds_str p bs \<Longrightarrow> 0 \<notin> set bs \<Longrightarrow> strlen p = Inr (length bs)"
  by (simp add: strlen_def strlen_from_holds_str)

lemma strlen_from_unterminated:
  "cells p = map Some bs \<Longrightarrow> k \<le> length bs \<Longrightarrow> 0 \<notin> set (drop k bs) \<Longrightarrow>
   strlen_from p k = Inl (Read_oob (int (length bs)))"
proof (induction p k rule: strlen_from.induct)
  case (1 p n)
  show ?case
  proof (cases "n < length bs")
    case True
    with "1.prems"(3) have nz: "bs ! n \<noteq> 0"
      by (metis Cons_nth_drop_Suc list.set_intros(1))
    from True "1.prems"(3) have "0 \<notin> set (drop (Suc n) bs)"
      by (metis Cons_nth_drop_Suc list.set_intros(2))
    moreover from True "1.prems"(1) have "obj_read p (int n) = Inr (bs ! n)"
      by (simp add: obj_read_def)
    ultimately show ?thesis
      using True nz "1.IH" [of "bs ! n"] "1.prems"(1)
      by (simp add: strlen_from.simps [of p n])
  next
    case False
    with "1.prems"(2) have "n = length bs" by simp
    with "1.prems"(1) show ?thesis
      by (simp add: strlen_from.simps [of p "length bs"] obj_read_def)
  qed
qed

subsection \<open>Writes, reads and fresh blocks\<close>

lemma obj_write_frame:
  "obj_write p d v = Inr p' \<Longrightarrow> length (cells p') = length (cells p) \<and> below p' = below p"
  by (auto simp: obj_write_def split: if_splits)

lemma obj_read_write:
  "obj_write p d v = Inr p' \<Longrightarrow> obj_read p' d' = (if d' = d then Inr v else obj_read p d')"
  by (auto simp: obj_write_def obj_read_def nat_eq_iff split: if_splits)

lemma obj_write_Inl: "obj_write p d v = Inl e \<longleftrightarrow> e = Write_oob d \<and> \<not> (0 \<le> d \<and> d < int (length (cells p)))"
  by (auto simp: obj_write_def)

lemma obj_read_cell: "k < length (cells p) \<Longrightarrow> cells p ! k = Some v \<Longrightarrow> obj_read p (int k) = Inr v"
  by (simp add: obj_read_def)

lemma obj_write_cell:
  "k < length (cells p) \<Longrightarrow> obj_write p (int k) v = Inr (p\<lparr>cells := (cells p)[k := Some v]\<rparr>)"
  by (simp add: obj_write_def)

lemma malloc_ok [simp]: "\<not> fails A n \<Longrightarrow> deref (malloc A n) = Inr (fresh_block A n)"
  by (simp add: malloc_def deref_def)

lemma malloc_null [simp]: "fails A n \<Longrightarrow> deref (malloc A n) = Inl Null_deref"
  by (simp add: malloc_def deref_def)

lemma strict_alloc_ok [simp]: "\<not> fails strict_alloc n"
  by (simp add: strict_alloc_def)

lemma length_fresh_block [simp]: "length (cells (fresh_block A n)) = n + slack A n"
  by (simp add: fresh_block_def)

lemma obj_read_fresh_block:
  "obj_read (fresh_block A n) d =
     (if 0 \<le> d \<and> d < int (n + slack A n) then Inl (Read_uninit d)
      else if d < 0 then (case header A d of None \<Rightarrow> Inl (Read_oob d) | Some v \<Rightarrow> Inr v)
      else Inl (Read_oob d))"
  by (simp add: obj_read_def fresh_block_def)

lemma memcpy_fresh_block_holds_str:
  "holds_str p bs \<Longrightarrow>
   memcpy (fresh_block A (length bs)) p (length bs) =
     Inr \<lparr>cells = map Some bs @ replicate (slack A (length bs)) None, below = header A\<rparr>"
proof -
  assume h: "holds_str p bs"
  have "take (length bs) (cells p) = take (length bs) (take (Suc (length bs)) (cells p))"
    by simp
  also have "\<dots> = map Some bs"
    using h by (simp add: holds_str_def)
  finally have "take (length bs) (cells p) = map Some bs" .
  with holds_str_length [OF h] show ?thesis
    by (simp add: memcpy_def fresh_block_def)
qed

subsection \<open>The remainder operator\<close>

lemma c_rem_nonneg: "0 \<le> a \<Longrightarrow> 0 < b \<Longrightarrow> c_rem a b = a mod b"
  by (cases "a = 0") (simp_all add: c_rem_def)

lemma c_rem_neg: "a < 0 \<Longrightarrow> 0 < b \<Longrightarrow> c_rem a b = - ((- a) mod b)"
  by (simp add: c_rem_def)

lemma c_rem_small: "\<bar>a\<bar> < \<bar>b\<bar> \<Longrightarrow> c_rem a b = a"
  by (simp add: c_rem_def mult_sgn_abs)

end
