(* ===== verification/PearsonTable.thy ===== *)
theory PearsonTable
  imports CRuntime
begin

text \<open>
  The permutation table \<open>pearson_T\<close> of \<open>src/pearson-hashing.c\<close> (lines 15--33,
  taken from RFC 3074), the subscript \<open>pearson_T[hash ^ c]\<close> that every variant
  evaluates once per byte (\<open>pearson_step\<close>: \<open>hash\<close> an \<open>unsigned char\<close>,
  \<open>c\<close> a plain \<open>char\<close>, both promoted to \<open>int\<close> before the XOR), and the
  total lookup \<open>pearson_lookup\<close> on byte indices that the specification calls
  \<open>T\<close>. The lemmas show that the table is a permutation of the bytes, that
  \<open>pearson_lookup\<close> is a bijection, and exactly when the C subscript stays
  within the array.
\<close>

unbundle bit_operations_syntax

definition pearson_T :: "u8 list" where
  "pearson_T =
    [251, 175, 119, 215, 81, 14, 79, 191, 103, 49, 181, 143, 186, 157, 0, 232,
     31, 32, 55, 60, 152, 58, 17, 237, 174, 70, 160, 144, 220, 90, 57, 223,
     59, 3, 18, 140, 111, 166, 203, 196, 134, 243, 124, 95, 222, 179, 197, 65,
     180, 48, 36, 15, 107, 46, 233, 130, 165, 30, 123, 161, 209, 23, 97, 16,
     40, 91, 219, 61, 100, 10, 210, 109, 250, 127, 22, 138, 29, 108, 244, 67,
     207, 9, 178, 204, 74, 98, 126, 249, 167, 116, 34, 77, 193, 200, 121, 5,
     20, 113, 71, 35, 128, 13, 182, 94, 25, 226, 227, 199, 75, 27, 41, 245,
     230, 224, 43, 225, 177, 26, 155, 150, 212, 142, 218, 115, 241, 73, 88, 105,
     39, 114, 62, 255, 192, 201, 145, 214, 168, 158, 221, 148, 154, 122, 12, 84,
     82, 163, 44, 139, 228, 236, 205, 242, 217, 11, 187, 146, 159, 64, 86, 239,
     195, 42, 106, 198, 118, 112, 184, 172, 87, 2, 173, 117, 176, 229, 247, 253,
     137, 185, 99, 164, 102, 147, 45, 66, 231, 52, 141, 211, 194, 206, 246, 238,
     56, 110, 78, 248, 63, 240, 189, 93, 92, 51, 53, 183, 19, 171, 72, 50,
     33, 104, 101, 69, 8, 252, 83, 120, 76, 135, 85, 54, 202, 125, 188, 213,
     96, 235, 136, 208, 162, 129, 190, 132, 156, 38, 47, 1, 7, 254, 24, 4,
     216, 131, 89, 21, 28, 133, 37, 153, 149, 80, 170, 68, 6, 169, 234, 151]"

definition table_at :: "int \<Rightarrow> u8 cres" where
  "table_at i =
     (if 0 \<le> i \<and> i < int (length pearson_T) then Inr (pearson_T ! nat i) else Inl (Table_index i))"

definition pearson_step :: "char_kind \<Rightarrow> u8 \<Rightarrow> u8 \<Rightarrow> u8 cres" where
  "pearson_step ck hash c = table_at (uint hash XOR char_val ck c)"

definition pearson_lookup :: "u8 \<Rightarrow> u8" where
  "pearson_lookup x = pearson_T ! unat x"

subsection \<open>The table is a permutation\<close>

lemma length_pearson_T [simp]: "length pearson_T = 256"
  by (simp add: pearson_T_def)

text \<open>
  Distinctness is decided on the naturals the bytes denote: comparing \<open>nat\<close>
  numerals is cheap, comparing word numerals is not.
\<close>

lemma unat_pearson_T:
  "map unat pearson_T =
    [251, 175, 119, 215, 81, 14, 79, 191, 103, 49, 181, 143, 186, 157, 0, 232,
     31, 32, 55, 60, 152, 58, 17, 237, 174, 70, 160, 144, 220, 90, 57, 223,
     59, 3, 18, 140, 111, 166, 203, 196, 134, 243, 124, 95, 222, 179, 197, 65,
     180, 48, 36, 15, 107, 46, 233, 130, 165, 30, 123, 161, 209, 23, 97, 16,
     40, 91, 219, 61, 100, 10, 210, 109, 250, 127, 22, 138, 29, 108, 244, 67,
     207, 9, 178, 204, 74, 98, 126, 249, 167, 116, 34, 77, 193, 200, 121, 5,
     20, 113, 71, 35, 128, 13, 182, 94, 25, 226, 227, 199, 75, 27, 41, 245,
     230, 224, 43, 225, 177, 26, 155, 150, 212, 142, 218, 115, 241, 73, 88, 105,
     39, 114, 62, 255, 192, 201, 145, 214, 168, 158, 221, 148, 154, 122, 12, 84,
     82, 163, 44, 139, 228, 236, 205, 242, 217, 11, 187, 146, 159, 64, 86, 239,
     195, 42, 106, 198, 118, 112, 184, 172, 87, 2, 173, 117, 176, 229, 247, 253,
     137, 185, 99, 164, 102, 147, 45, 66, 231, 52, 141, 211, 194, 206, 246, 238,
     56, 110, 78, 248, 63, 240, 189, 93, 92, 51, 53, 183, 19, 171, 72, 50,
     33, 104, 101, 69, 8, 252, 83, 120, 76, 135, 85, 54, 202, 125, 188, 213,
     96, 235, 136, 208, 162, 129, 190, 132, 156, 38, 47, 1, 7, 254, 24, 4,
     216, 131, 89, 21, 28, 133, 37, 153, 149, 80, 170, 68, 6, 169, 234, 151]"
  by (simp add: pearson_T_def)

lemma distinct_pearson_T: "distinct pearson_T"
proof -
  have "distinct (map unat pearson_T)"
    by (simp only: unat_pearson_T) simp
  then show ?thesis
    by (simp add: distinct_map)
qed

lemma set_pearson_T: "set pearson_T = UNIV"
proof -
  have "card (set pearson_T) = 256"
    using distinct_pearson_T by (simp add: distinct_card)
  also have "\<dots> = card (UNIV :: u8 set)"
    by (simp add: card_word)
  finally show ?thesis
    by (intro card_subset_eq) simp_all
qed

lemma pearson_lookup_inj: "inj pearson_lookup"
proof (rule injI)
  fix x y :: u8
  assume "pearson_lookup x = pearson_lookup y"
  then have "pearson_T ! unat x = pearson_T ! unat y"
    by (simp add: pearson_lookup_def)
  moreover have "unat x < length pearson_T" "unat y < length pearson_T"
    using unsigned_less [of x] unsigned_less [of y] by simp_all
  ultimately have "unat x = unat y"
    using distinct_pearson_T by (simp add: nth_eq_iff_index_eq)
  then show "x = y" by (rule unsigned_word_eqI)
qed

lemma pearson_lookup_eq_iff [simp]: "pearson_lookup x = pearson_lookup y \<longleftrightarrow> x = y"
  using pearson_lookup_inj by (auto dest: injD)

lemma pearson_lookup_bij: "bij pearson_lookup"
  using pearson_lookup_inj by (simp add: bij_def finite_UNIV_inj_surj)

subsection \<open>The subscript \<open>pearson_T[hash ^ c]\<close>\<close>

lemma table_at_uint: "table_at (uint x) = Inr (pearson_lookup x)"
  using uint_u8_less [of x] by (simp add: table_at_def pearson_lookup_def)

lemma pearson_step_ok:
  "char_ok ck c \<Longrightarrow> pearson_step ck h c = Inr (pearson_lookup (h XOR c))"
proof -
  assume "char_ok ck c"
  then have "char_val ck c = uint c"
    by (auto simp: char_ok_def char_val_def sint_u8_small split: char_kind.split)
  then show ?thesis
    by (simp only: pearson_step_def xor_uint_eq table_at_uint)
qed

lemma pearson_step_bad:
  "\<not> char_ok ck c \<Longrightarrow>
   pearson_step ck h c = Inl (Table_index (uint h XOR sint c)) \<and> uint h XOR sint c < 0"
proof -
  assume "\<not> char_ok ck c"
  then have ck: "ck = Signed_char" and big: "128 \<le> c"
    by (auto simp: char_ok_def intro: char_kind.exhaust)
  from big have "sint c < 0" by (simp add: sint_u8_large uint_u8_less)
  then have neg: "uint h XOR sint c < 0"
    by simp
  with ck show ?thesis
    by (simp add: pearson_step_def table_at_def char_val_def)
qed

lemma pearson_step_Inl: "pearson_step ck h c = Inl e \<Longrightarrow> \<exists>j. e = Table_index j \<and> j < 0"
  using pearson_step_ok [of ck c h] pearson_step_bad [of ck c h] by (cases "char_ok ck c") auto

subsection \<open>Properties of the table\<close>

text \<open>
  C6. \<open>pearson_T\<close> has 256 entries and holds every byte value exactly once, so
  the lookup \<open>T\<close> of the specification is a bijection on bytes.
\<close>

theorem pearson_T_permutation:
  "length pearson_T = 256 \<and> distinct pearson_T \<and> set pearson_T = UNIV \<and> bij pearson_lookup"
  using distinct_pearson_T set_pearson_T pearson_lookup_bij by simp

text \<open>
  C11. The subscript \<open>pearson_T[hash ^ c]\<close> is within the array exactly when the
  promoted \<open>c\<close> is non-negative (every byte with an unsigned \<open>char\<close>, bytes below
  \<open>0x80\<close> with a signed one); it then reads \<open>T[hash XOR c]\<close>, and otherwise the
  subscript is negative.
\<close>

theorem pearson_step_subscript:
  "pearson_step ck h c =
     (if char_ok ck c then Inr (pearson_lookup (h XOR c)) else Inl (Table_index (uint h XOR sint c))) \<and>
   (char_ok ck c \<or> uint h XOR sint c < 0)"
  using pearson_step_ok [of ck c h] pearson_step_bad [of ck c h] by auto

end
