(* ===== verification/PearsonSpec.thy ===== *)
theory PearsonSpec
  imports PearsonTable
begin

text \<open>
  The abstract specification of the four operations as \<open>spec.md\<close> (section 4.1)
  describes them, over byte sequences and with no C in between: the fold step
  \<open>h = T[h XOR b]\<close> (\<open>fold_byte\<close>), the fold from a seed (\<open>pearson\<close>), and
  \<open>hash_wikipedia\<close>, \<open>hash_rfc3074\<close>, \<open>hash_original\<close>, \<open>hash16\<close> with the
  specification's \<open>InvalidInput\<close> as \<open>None\<close>. The C models of the other theories
  are proved to refine these. The lemmas here are properties of the algorithm:
  folding is compositional (streaming), a fold is injective in its seed, and
  changing any single byte of a key changes its digest.
\<close>

unbundle bit_operations_syntax

definition fold_byte :: "u8 \<Rightarrow> u8 \<Rightarrow> u8" where
  "fold_byte h b = pearson_lookup (h XOR b)"

primrec pearson :: "u8 \<Rightarrow> u8 list \<Rightarrow> u8" where
  "pearson h [] = h"
| "pearson h (b # bs) = pearson (fold_byte h b) bs"

definition hash_wikipedia :: "u8 list \<Rightarrow> u8" where
  "hash_wikipedia bs = pearson 0 bs"

definition hash_rfc3074 :: "u8 list \<Rightarrow> u8 option" where
  "hash_rfc3074 bs =
     (if length bs \<le> 255 then Some (pearson (word_of_nat (length bs)) (rev bs)) else None)"

definition hash_original :: "u8 list \<Rightarrow> u8 option" where
  "hash_original bs = (if bs = [] then None else Some (pearson 0 bs))"

definition perturb :: "u8 \<Rightarrow> u8" where
  "perturb b = word_of_nat ((unat b + 1) mod 255)"

definition hash16 :: "u8 list \<Rightarrow> u16 option" where
  "hash16 bs =
     (case bs of
        [] \<Rightarrow> None
      | b # rest \<Rightarrow>
          Some (push_bit 8 (ucast (hash_wikipedia bs)) OR ucast (hash_wikipedia (perturb b # rest))))"

subsection \<open>Folding\<close>

lemma fold_byte_inj_seed: "fold_byte h b = fold_byte h' b \<longleftrightarrow> h = h'"
  by (simp add: fold_byte_def)

lemma fold_byte_inj_byte: "fold_byte h a = fold_byte h b \<longleftrightarrow> a = b"
  by (simp add: fold_byte_def)

lemma pearson_append: "pearson h (xs @ ys) = pearson (pearson h xs) ys"
  by (induction xs arbitrary: h) simp_all

lemma pearson_snoc: "pearson h (xs @ [b]) = fold_byte (pearson h xs) b"
  by (simp add: pearson_append)

lemma pearson_fold: "pearson h bs = fold (\<lambda>b h. fold_byte h b) bs h"
  by (induction bs arbitrary: h) simp_all

lemma pearson_inj_seed: "pearson h bs = pearson h' bs \<longleftrightarrow> h = h'"
  by (induction bs arbitrary: h h') (simp_all add: fold_byte_inj_seed)

lemma pearson_single_byte:
  assumes "a \<noteq> b"
  shows "pearson h (xs @ a # ys) \<noteq> pearson h (xs @ b # ys)"
proof -
  have "fold_byte (pearson h xs) a \<noteq> fold_byte (pearson h xs) b"
    using assms by (simp add: fold_byte_inj_byte)
  then show ?thesis
    by (simp add: pearson_append pearson_inj_seed)
qed

end
