(* ===== verification/Rfc3074.thy ===== *)
theory Rfc3074
  imports PearsonSpec
begin

text \<open>
  \<open>phash_rfc3074\<close> (\<open>src/pearson-hashing.c\<close>, lines 37--42):
  \<open>len = strlen(key)\<close>, the seed \<open>unsigned char hash = len\<close> (a \<open>size_t\<close>
  converted to a byte, so modulo 256), then
  \<open>for (size_t i = len; i > 0;) hash = pearson_T[hash ^ key[--i]];\<close>.
  \<open>rfc_loop ck key i hash\<close> is the loop with \<open>i\<close> iterations left; it reads
  \<open>key[i - 1]\<close> first. The lemmas: on a C string the result is the fold over the
  reversed bytes from the truncated length, so it agrees with the specification's
  \<open>hash_rfc3074\<close> up to 255 bytes and silently wraps the seed beyond.
\<close>

unbundle bit_operations_syntax

fun rfc_loop :: "char_kind \<Rightarrow> mem_obj \<Rightarrow> nat \<Rightarrow> u8 \<Rightarrow> u8 cres" where
  "rfc_loop ck key 0 hash = Inr hash"
| "rfc_loop ck key (Suc i) hash =
     cbind (obj_read key (int i)) (\<lambda>c.
       cbind (pearson_step ck hash c) (\<lambda>hash'. rfc_loop ck key i hash'))"

definition rfc_seed :: "nat \<Rightarrow> u8" where
  "rfc_seed len = ucast (word_of_nat len :: size_t)"

definition phash_rfc3074 :: "char_kind \<Rightarrow> mem_obj \<Rightarrow> u8 cres" where
  "phash_rfc3074 ck key = cbind (strlen key) (\<lambda>len. rfc_loop ck key len (rfc_seed len))"

subsection \<open>The seed\<close>

lemma rfc_seed_eq: "rfc_seed len = word_of_nat len"
  unfolding rfc_seed_def by (rule bit_word_eqI) (auto simp: bit_simps)

subsection \<open>The loop on a C string\<close>

lemma rfc_loop_holds_str:
  "holds_str p bs \<Longrightarrow> i \<le> length bs \<Longrightarrow> chars_ok ck (take i bs) \<Longrightarrow>
   rfc_loop ck p i h = Inr (pearson h (rev (take i bs)))"
proof (induction i arbitrary: h)
  case 0
  then show ?case by simp
next
  case (Suc i)
  then have i: "i < length bs" by simp
  then have tk: "take (Suc i) bs = take i bs @ [bs ! i]"
    by (rule take_Suc_conv_app_nth)
  with Suc.prems(3) have ok: "char_ok ck (bs ! i)" and oks: "chars_ok ck (take i bs)"
    by simp_all
  have "rfc_loop ck p (Suc i) h = rfc_loop ck p i (fold_byte h (bs ! i))"
    using Suc.prems(1) i ok by (simp add: holds_str_read pearson_step_ok fold_byte_def)
  also have "\<dots> = Inr (pearson (fold_byte h (bs ! i)) (rev (take i bs)))"
    using Suc.prems(1) i oks by (intro Suc.IH) simp_all
  finally show ?case
    by (simp add: tk)
qed

lemma phash_rfc3074_holds_str:
  "holds_str p bs \<Longrightarrow> 0 \<notin> set bs \<Longrightarrow> chars_ok ck bs \<Longrightarrow>
   phash_rfc3074 ck p = Inr (pearson (word_of_nat (length bs)) (rev bs))"
  using rfc_loop_holds_str [of p bs "length bs" ck]
  by (simp add: phash_rfc3074_def strlen_holds_str rfc_seed_eq)

subsection \<open>Properties of \<open>phash_rfc3074\<close>\<close>

text \<open>
  C2. On an object holding a NUL-terminated string whose chars promote to
  non-negative values, \<open>phash_rfc3074\<close> folds \<open>T[h XOR b]\<close> over the bytes from
  the last to the first, starting from the length of the string modulo 256.
\<close>

theorem phash_rfc3074_refines:
  assumes "holds_str p bs" and "0 \<notin> set bs" and "chars_ok ck bs"
  shows "phash_rfc3074 ck p = Inr (pearson (word_of_nat (length bs)) (rev bs))"
  using assms by (rule phash_rfc3074_holds_str)

theorem phash_rfc3074_refines_witness:
  "holds_str (c_str [104, 105]) [104, 105] \<and> 0 \<notin> set [104, 105 :: u8] \<and>
   chars_ok Unsigned_char [104, 105] \<and>
   phash_rfc3074 Unsigned_char (c_str [104, 105]) = Inr (pearson (word_of_nat 2) (rev [104, 105]))"
  using phash_rfc3074_refines [of "c_str [104, 105]" "[104, 105]" Unsigned_char]
  by (simp add: char_ok_def)

text \<open>
  C12. Two keys of the same length that differ in exactly one byte get different
  digests from \<open>phash_rfc3074\<close>.
\<close>

theorem phash_rfc3074_single_byte:
  assumes "holds_str p (xs @ a # ys)" and "holds_str q (xs @ b # ys)" and "a \<noteq> b"
    and "0 \<notin> set (xs @ a # ys)" and "0 \<notin> set (xs @ b # ys)"
    and "chars_ok ck (xs @ a # ys)" and "chars_ok ck (xs @ b # ys)"
  shows "phash_rfc3074 ck p \<noteq> phash_rfc3074 ck q"
  using assms phash_rfc3074_holds_str [of p "xs @ a # ys" ck] phash_rfc3074_holds_str [of q "xs @ b # ys" ck]
    pearson_single_byte [of a b "word_of_nat (Suc (length xs + length ys))" "rev ys" "rev xs"]
  by simp

theorem phash_rfc3074_single_byte_witness:
  "holds_str (c_str [104, 105]) ([104] @ 105 # []) \<and> holds_str (c_str [104, 106]) ([104] @ 106 # []) \<and>
   (105 :: u8) \<noteq> 106 \<and> 0 \<notin> set ([104] @ 105 # ([] :: u8 list)) \<and> 0 \<notin> set ([104] @ 106 # ([] :: u8 list)) \<and>
   chars_ok Signed_char ([104] @ 105 # []) \<and> chars_ok Signed_char ([104] @ 106 # []) \<and>
   phash_rfc3074 Signed_char (c_str [104, 105]) \<noteq> phash_rfc3074 Signed_char (c_str [104, 106])"
  using phash_rfc3074_single_byte [of "c_str [104, 105]" "[104]" 105 "[]" "c_str [104, 106]" 106 Signed_char]
  by (simp add: char_ok_def)

end
