(* ===== verification/Original.thy ===== *)
theory Original
  imports PearsonSpec
begin

text \<open>
  \<open>phash_original\<close> (\<open>src/pearson-hashing.c\<close>, lines 63--69): it allocates
  \<open>hash = malloc(len)\<close> (a null pointer, never checked, is an error at its
  first use, the next statement), runs
  \<open>for (size_t i = 0; i < len; i++) hash[i] = pearson_T[hash[i - 1] ^ key[i]];\<close>
  and returns \<open>hash[len - 1]\<close>. The subscripts \<open>i - 1\<close> and \<open>len - 1\<close> are
  \<open>size_t\<close>: for \<open>i = 0\<close> (and for \<open>len = 0\<close>) they wrap to \<open>SIZE_MAX\<close>, and
  \<open>hash + SIZE_MAX\<close> is the address one below the block; \<open>orig_index\<close> computes
  that displacement (\<open>sint\<close> of the wrapped value). \<open>orig_loop ck key len i hash\<close>
  is the loop about to run iteration \<open>i\<close>, with the block \<open>hash\<close> in its current
  state. The two operands of \<open>^\<close> are read left to right (C leaves the order
  unspecified; no result below depends on it).
  The lemmas (for an allocation that succeeds): the first iteration always reads below the block, so under a strict
  allocator every call is undefined; when the byte below the block holds \<open>s\<close>, the
  result is the fold from seed \<open>s\<close>, equal to \<open>phash_wikipedia\<close> exactly when
  \<open>s = 0\<close>.
\<close>

unbundle bit_operations_syntax

definition orig_index :: "nat \<Rightarrow> int" where
  "orig_index i = sint (word_of_nat i - 1 :: size_t)"

function orig_loop :: "char_kind \<Rightarrow> mem_obj \<Rightarrow> nat \<Rightarrow> nat \<Rightarrow> mem_obj \<Rightarrow> mem_obj cres" where
  "orig_loop ck key len i hash =
     (if i < len then
        cbind (obj_read hash (orig_index i)) (\<lambda>prev.
        cbind (obj_read key (int i)) (\<lambda>c.
        cbind (pearson_step ck prev c) (\<lambda>v.
        cbind (obj_write hash (int i) v) (\<lambda>hash'.
        orig_loop ck key len (Suc i) hash'))))
      else Inr hash)"
  by pat_completeness auto
termination
  by (relation "measure (\<lambda>(ck, key, len, i, hash). len - i)") auto

declare orig_loop.simps [simp del]

definition phash_original :: "allocator \<Rightarrow> char_kind \<Rightarrow> mem_obj \<Rightarrow> u8 cres" where
  "phash_original A ck key =
     cbind (strlen key) (\<lambda>len.
     cbind (deref (malloc A len)) (\<lambda>hash.
     cbind (orig_loop ck key len 0 hash) (\<lambda>hash.
     obj_read hash (orig_index len))))"

text \<open>
  The invariant of the loop at iteration \<open>i\<close>: the value it reads as
  \<open>hash[i - 1]\<close> is the fold of the first \<open>i\<close> bytes from seed \<open>s\<close>, where for
  \<open>i = 0\<close> that read is the byte below the block. From such a state the loop
  returns, fills cells \<open>i .. len - 1\<close> with the prefix hashes and leaves the cells
  below \<open>i\<close>, the block's size and the bytes below it alone.
\<close>

definition orig_prev_ok :: "mem_obj \<Rightarrow> u8 \<Rightarrow> u8 list \<Rightarrow> nat \<Rightarrow> bool" where
  "orig_prev_ok hash s bs i \<longleftrightarrow>
     (if i = 0 then below hash (-1) = Some s else cells hash ! (i - 1) = Some (pearson s (take i bs)))"

subsection \<open>The wrapped subscript\<close>

lemma orig_index_0 [simp]: "orig_index 0 = -1"
  by (simp add: orig_index_def)

lemma orig_index_pos: "0 < i \<Longrightarrow> i < 2 ^ 63 \<Longrightarrow> orig_index i = int i - 1"
  by (simp add: orig_index_def sint_size_t_pred)

lemma orig_index_pred: "0 < i \<Longrightarrow> i < 2 ^ 63 \<Longrightarrow> orig_index i = int (i - 1)"
  by (simp add: orig_index_pos of_nat_diff Suc_le_eq)

subsection \<open>The loop stores the prefix hashes\<close>

lemma pearson_take_Suc:
  "i < length bs \<Longrightarrow> fold_byte (pearson s (take i bs)) (bs ! i) = pearson s (take (Suc i) bs)"
  by (simp add: take_Suc_conv_app_nth pearson_snoc)

lemma orig_prev_read:
  "orig_prev_ok hash s bs i \<Longrightarrow> i \<le> length (cells hash) \<Longrightarrow> i < 2 ^ 63 \<Longrightarrow>
   obj_read hash (orig_index i) = Inr (pearson s (take i bs))"
proof (cases "i = 0")
  case True
  then show "orig_prev_ok hash s bs i \<Longrightarrow> ?thesis"
    by (simp add: orig_prev_ok_def obj_read_def)
next
  case False
  assume ok: "orig_prev_ok hash s bs i" and len: "i \<le> length (cells hash)" and small: "i < 2 ^ 63"
  from False small have idx: "orig_index i = int (i - 1)"
    by (simp add: orig_index_pred)
  from False ok len have "obj_read hash (int (i - 1)) = Inr (pearson s (take i bs))"
    by (intro obj_read_cell) (simp_all add: orig_prev_ok_def)
  with idx show ?thesis
    by (simp only:)
qed

lemma orig_loop_prefix:
  "n = length bs \<Longrightarrow> holds_str p bs \<Longrightarrow> chars_ok ck bs \<Longrightarrow> n < 2 ^ 63 \<Longrightarrow>
   n \<le> length (cells hash) \<Longrightarrow> i \<le> n \<Longrightarrow> orig_prev_ok hash s bs i \<Longrightarrow>
   \<exists>hash'. orig_loop ck p n i hash = Inr hash' \<and>
     length (cells hash') = length (cells hash) \<and> below hash' = below hash \<and>
     (\<forall>j<i. cells hash' ! j = cells hash ! j) \<and>
     (\<forall>j. i \<le> j \<and> j < n \<longrightarrow> cells hash' ! j = Some (pearson s (take (Suc j) bs)))"
proof (induction ck p n i hash rule: orig_loop.induct)
  case (1 ck p n i hash)
  show ?case
  proof (cases "i < n")
    case False
    then have run: "orig_loop ck p n i hash = Inr hash"
      by (simp add: orig_loop.simps [of ck p n i hash])
    have none: "\<forall>j. i \<le> j \<and> j < n \<longrightarrow> cells hash ! j = Some (pearson s (take (Suc j) bs))"
      using False by (blast dest: le_less_trans)
    show ?thesis
      by (rule exI [of _ hash]) (simp add: run none)
  next
    case True
    let ?prev = "pearson s (take i bs)"
    let ?v = "pearson s (take (Suc i) bs)"
    let ?hash1 = "hash\<lparr>cells := (cells hash)[i := Some ?v]\<rparr>"
    have i_bs: "i < length bs" and i_cells: "i < length (cells hash)"
      using True "1.prems"(1,5) by simp_all
    have rd: "obj_read hash (orig_index i) = Inr ?prev"
      using "1.prems"(4,7) True i_cells by (intro orig_prev_read) simp_all
    have key: "obj_read p (int i) = Inr (bs ! i)"
      using "1.prems"(2) i_bs by (rule holds_str_read)
    have ok: "char_ok ck (bs ! i)"
      using "1.prems"(3) i_bs by (simp add: list_all_length)
    have st: "pearson_step ck ?prev (bs ! i) = Inr ?v"
      using ok i_bs by (simp add: pearson_step_ok pearson_take_Suc [symmetric] fold_byte_def)
    have wr: "obj_write hash (int i) ?v = Inr ?hash1"
      using i_cells by (rule obj_write_cell)
    have ok1: "orig_prev_ok ?hash1 s bs (Suc i)"
      using i_cells by (simp add: orig_prev_ok_def)
    obtain hash' where run: "orig_loop ck p n (Suc i) ?hash1 = Inr hash'"
      and len': "length (cells hash') = length (cells ?hash1)" and bel': "below hash' = below ?hash1"
      and frame': "\<forall>j<Suc i. cells hash' ! j = cells ?hash1 ! j"
      and fill': "\<forall>j. Suc i \<le> j \<and> j < n \<longrightarrow> cells hash' ! j = Some (pearson s (take (Suc j) bs))"
      using "1.IH" [OF True rd key st wr] "1.prems"(1-5) True ok1 by auto
    have "orig_loop ck p n i hash = Inr hash'"
      using True rd key st wr run by (simp add: orig_loop.simps [of ck p n i hash])
    moreover have "\<forall>j<i. cells hash' ! j = cells hash ! j"
      using frame' by simp
    moreover have "\<forall>j. i \<le> j \<and> j < n \<longrightarrow> cells hash' ! j = Some (pearson s (take (Suc j) bs))"
    proof (intro allI impI)
      fix j
      assume j: "i \<le> j \<and> j < n"
      show "cells hash' ! j = Some (pearson s (take (Suc j) bs))"
      proof (cases "j = i")
        case True
        have "cells hash' ! i = cells ?hash1 ! i"
          using frame' by simp
        also have "\<dots> = Some ?v"
          using i_cells by simp
        finally show ?thesis
          using True by simp
      next
        case False
        with j have "Suc i \<le> j \<and> j < n" by simp
        with fill' show ?thesis by simp
      qed
    qed
    ultimately show ?thesis
      using len' bel' by simp
  qed
qed

lemma phash_original_header_seed:
  assumes "header A (-1) = Some s" and "holds_str p bs" and "0 \<notin> set bs"
    and "chars_ok ck bs" and "length bs < 2 ^ 63" and "\<not> fails A (length bs)"
  shows "phash_original A ck p = Inr (pearson s bs)"
proof -
  let ?n = "length bs"
  have ok0: "orig_prev_ok (fresh_block A ?n) s bs 0"
    using assms(1) by (simp add: orig_prev_ok_def fresh_block_def)
  obtain hash' where run: "orig_loop ck p ?n 0 (fresh_block A ?n) = Inr hash'"
    and len': "length (cells hash') = ?n + slack A ?n" and bel': "below hash' = header A"
    and fill': "\<forall>j. j < ?n \<longrightarrow> cells hash' ! j = Some (pearson s (take (Suc j) bs))"
    using orig_loop_prefix [OF refl assms(2,4,5) _ _ ok0] by (auto simp: fresh_block_def)
  have "obj_read hash' (orig_index ?n) = Inr (pearson s bs)"
  proof (cases "bs = []")
    case True
    then show ?thesis
      using assms(1) bel' by (simp add: obj_read_def)
  next
    case False
    then have "0 < ?n" by simp
    then have idx: "orig_index ?n = int (?n - 1)"
      using assms(5) by (simp add: orig_index_pred)
    have "cells hash' ! (?n - 1) = Some (pearson s bs)"
      using fill' \<open>0 < ?n\<close> by simp
    moreover have "?n - 1 < length (cells hash')"
      using len' \<open>0 < ?n\<close> by linarith
    ultimately have "obj_read hash' (int (?n - 1)) = Inr (pearson s bs)"
      by (intro obj_read_cell)
    with idx show ?thesis
      by (simp only:)
  qed
  then show ?thesis
    using run assms(2,3,6) by (simp add: phash_original_def strlen_holds_str)
qed

lemma phash_original_no_header:
  assumes "header A (-1) = None" and "holds_str p bs" and "0 \<notin> set bs" and "\<not> fails A (length bs)"
  shows "phash_original A ck p = Inl (Read_oob (-1))"
proof (cases "bs = []")
  case True
  then show ?thesis
    using assms by (simp add: phash_original_def strlen_holds_str orig_loop.simps fresh_block_def obj_read_def)
next
  case False
  then have "orig_loop ck p (length bs) 0 (fresh_block A (length bs)) = Inl (Read_oob (-1))"
    using assms(1) by (simp add: orig_loop.simps [of ck p _ 0] fresh_block_def obj_read_def)
  then show ?thesis
    using assms(2,3,4) by (simp add: phash_original_def strlen_holds_str)
qed

subsection \<open>Properties of \<open>phash_original\<close>\<close>

text \<open>
  C3. The first iteration reads \<open>hash[i - 1]\<close> with \<open>i = 0\<close>: \<open>SIZE_MAX\<close>, one
  byte below the block. Under an allocator that grants nothing outside the request
  (the C standard's view), \<open>phash_original\<close> has undefined behaviour on every
  NUL-terminated key, the empty one included (its final read \<open>hash[len - 1]\<close>
  wraps the same way).
\<close>

theorem phash_original_strict_ub:
  assumes "holds_str p bs" and "0 \<notin> set bs"
  shows "phash_original strict_alloc ck p = Inl (Read_oob (-1))"
  using phash_original_no_header [of strict_alloc p bs ck] assms by (simp add: strict_alloc_def)

theorem phash_original_strict_ub_witness:
  "holds_str (c_str [104, 105]) [104, 105] \<and> 0 \<notin> set [104, 105 :: u8] \<and>
   phash_original strict_alloc Signed_char (c_str [104, 105]) = Inl (Read_oob (-1))"
  using phash_original_strict_ub [of "c_str [104, 105]" "[104, 105]" Signed_char] by simp

text \<open>
  C13. The invariant of the loop: on a C string, when the byte below the fresh block
  reads as \<open>s\<close>, the loop returns and leaves in \<open>hash[j]\<close> the fold of the first
  \<open>j + 1\<close> bytes from seed \<open>s\<close>, for every \<open>j < len\<close>.
\<close>

theorem phash_original_prefix_hashes:
  assumes "header A (-1) = Some s" and "holds_str p bs" and "chars_ok ck bs" and "length bs < 2 ^ 63"
  shows "\<exists>hash. orig_loop ck p (length bs) 0 (fresh_block A (length bs)) = Inr hash \<and>
           (\<forall>j < length bs. cells hash ! j = Some (pearson s (take (Suc j) bs)))"
proof -
  have "orig_prev_ok (fresh_block A (length bs)) s bs 0"
    using assms(1) by (simp add: orig_prev_ok_def fresh_block_def)
  then show ?thesis
    using orig_loop_prefix [OF refl assms(2,3,4), of "fresh_block A (length bs)" 0 s] by auto
qed

theorem phash_original_prefix_hashes_witness:
  "header \<lparr>slack = (\<lambda>_. 0), header = (\<lambda>_. Some 0), fails = (\<lambda>_. False)\<rparr> (-1) = Some 0 \<and>
   holds_str (c_str [104, 105]) [104, 105] \<and> chars_ok Signed_char [104, 105] \<and>
   length [104, 105 :: u8] < 2 ^ 63 \<and>
   (\<exists>hash. orig_loop Signed_char (c_str [104, 105]) (length [104, 105 :: u8]) 0
              (fresh_block \<lparr>slack = (\<lambda>_. 0), header = (\<lambda>_. Some 0), fails = (\<lambda>_. False)\<rparr> (length [104, 105 :: u8])) = Inr hash \<and>
           (\<forall>j < length [104, 105 :: u8]. cells hash ! j = Some (pearson 0 (take (Suc j) [104, 105]))))"
  using phash_original_prefix_hashes [of "\<lparr>slack = (\<lambda>_. 0), header = (\<lambda>_. Some 0), fails = (\<lambda>_. False)\<rparr>" 0
      "c_str [104, 105]" "[104, 105]" Signed_char]
  by (simp add: char_ok_def)

text \<open>
  C14. For the empty key the specification raises \<open>InvalidInput\<close>; the code
  returns \<open>hash[len - 1]\<close>, which is the byte below the block.
\<close>

theorem phash_original_empty:
  assumes "header A (-1) = Some s" and "\<not> fails A 0"
  shows "hash_original [] = None \<and> phash_original A ck (c_str []) = Inr s"
  using phash_original_header_seed [of A s "c_str []" "[]" ck] assms
  by (simp add: hash_original_def)

theorem phash_original_empty_witness:
  "header \<lparr>slack = (\<lambda>_. 0), header = (\<lambda>_. Some 7), fails = (\<lambda>_. False)\<rparr> (-1) = Some 7 \<and>
   \<not> fails \<lparr>slack = (\<lambda>_. 0), header = (\<lambda>_. Some 7), fails = (\<lambda>_. False)\<rparr> 0 \<and>
   hash_original [] = None \<and>
   phash_original \<lparr>slack = (\<lambda>_. 0), header = (\<lambda>_. Some 7), fails = (\<lambda>_. False)\<rparr> Signed_char (c_str []) = Inr 7"
  using phash_original_empty [of "\<lparr>slack = (\<lambda>_. 0), header = (\<lambda>_. Some 7), fails = (\<lambda>_. False)\<rparr>" 7 Signed_char]
  by simp

text \<open>
  C10. The digest depends on memory outside the block: two allocators whose bytes
  below a fresh block differ give two different digests for every key.
\<close>

theorem phash_original_depends_on_header:
  assumes "header A (-1) = Some s" and "header B (-1) = Some s'" and "s \<noteq> s'"
    and "holds_str p bs" and "0 \<notin> set bs" and "chars_ok ck bs" and "length bs < 2 ^ 63"
    and "\<not> fails A (length bs)" and "\<not> fails B (length bs)"
  shows "phash_original A ck p \<noteq> phash_original B ck p"
  using phash_original_header_seed [of A s p bs ck] phash_original_header_seed [of B s' p bs ck] assms
  by (simp add: pearson_inj_seed)

theorem phash_original_depends_on_header_witness:
  "header \<lparr>slack = (\<lambda>_. 0), header = (\<lambda>_. Some 0), fails = (\<lambda>_. False)\<rparr> (-1) = Some 0 \<and>
   header \<lparr>slack = (\<lambda>_. 0), header = (\<lambda>_. Some 1), fails = (\<lambda>_. False)\<rparr> (-1) = Some 1 \<and> (0 :: u8) \<noteq> 1 \<and>
   holds_str (c_str [104]) [104] \<and> 0 \<notin> set [104 :: u8] \<and> chars_ok Signed_char [104] \<and>
   length [104 :: u8] < 2 ^ 63 \<and>
   \<not> fails \<lparr>slack = (\<lambda>_. 0), header = (\<lambda>_. Some 0), fails = (\<lambda>_. False)\<rparr> (length [104 :: u8]) \<and>
   \<not> fails \<lparr>slack = (\<lambda>_. 0), header = (\<lambda>_. Some 1), fails = (\<lambda>_. False)\<rparr> (length [104 :: u8]) \<and>
   phash_original \<lparr>slack = (\<lambda>_. 0), header = (\<lambda>_. Some 0), fails = (\<lambda>_. False)\<rparr> Signed_char (c_str [104]) \<noteq>
   phash_original \<lparr>slack = (\<lambda>_. 0), header = (\<lambda>_. Some 1), fails = (\<lambda>_. False)\<rparr> Signed_char (c_str [104])"
  using phash_original_depends_on_header [of "\<lparr>slack = (\<lambda>_. 0), header = (\<lambda>_. Some 0), fails = (\<lambda>_. False)\<rparr>" 0
      "\<lparr>slack = (\<lambda>_. 0), header = (\<lambda>_. Some 1), fails = (\<lambda>_. False)\<rparr>" 1 "c_str [104]" "[104]" Signed_char]
  by (simp add: char_ok_def)

end
