(* ===== verification/Wikipedia.thy ===== *)
theory Wikipedia
  imports PearsonSpec
begin

text \<open>
  \<open>phash_wikipedia\<close> (\<open>src/pearson-hashing.c\<close>, lines 74--78): the loop
  \<open>for (char c = *key++; c; c = *key++) hash = pearson_T[hash ^ c];\<close> from
  \<open>hash = 0\<close>. \<open>wiki_loop ck key k hash\<close> is the loop about to read
  \<open>key[k]\<close>; it ends at the first NUL, and a read the object cannot satisfy, or
  a subscript outside the table, is its error. The loop terminates because each
  iteration reads one cell further into a finite object.
  The lemmas: on an object holding a C string whose characters promote to
  non-negative values the result is the specification's \<open>hash_wikipedia\<close>; with
  a signed \<open>char\<close> the first byte \<open>\<ge> 0x80\<close> makes the subscript negative;
  on an object holding a C string the loop reads nothing past the terminator,
  and on one with no NUL it reads the first cell past the object.
\<close>

unbundle bit_operations_syntax

function wiki_loop :: "char_kind \<Rightarrow> mem_obj \<Rightarrow> nat \<Rightarrow> u8 \<Rightarrow> u8 cres" where
  "wiki_loop ck key k hash =
     cbind (obj_read key (int k)) (\<lambda>c.
       if c = 0 then Inr hash
       else cbind (pearson_step ck hash c) (\<lambda>hash'. wiki_loop ck key (Suc k) hash'))"
  by pat_completeness auto
termination
  by (relation "measure (\<lambda>(ck, key, k, hash). length (cells key) - k)")
     (auto simp: obj_read_def split: if_splits)

declare wiki_loop.simps [simp del]

definition phash_wikipedia :: "char_kind \<Rightarrow> mem_obj \<Rightarrow> u8 cres" where
  "phash_wikipedia ck key = wiki_loop ck key 0 0"

subsection \<open>The loop on a C string\<close>

lemma wiki_loop_holds_str:
  "holds_str p bs \<Longrightarrow> k \<le> length bs \<Longrightarrow> 0 \<notin> set (drop k bs) \<Longrightarrow> chars_ok ck (drop k bs) \<Longrightarrow>
   wiki_loop ck p k h = Inr (pearson h (drop k bs))"
proof (induction ck p k h rule: wiki_loop.induct)
  case (1 ck p n h)
  show ?case
  proof (cases "n < length bs")
    case True
    then have drop: "drop n bs = bs ! n # drop (Suc n) bs"
      by (rule Cons_nth_drop_Suc [symmetric])
    with "1.prems"(3,4) have nz: "bs ! n \<noteq> 0" and ok: "char_ok ck (bs ! n)"
      and rest: "0 \<notin> set (drop (Suc n) bs)" "chars_ok ck (drop (Suc n) bs)"
      by simp_all
    have step: "pearson_step ck h (bs ! n) = Inr (fold_byte h (bs ! n))"
      using ok by (simp add: pearson_step_ok fold_byte_def)
    have "wiki_loop ck p (Suc n) (fold_byte h (bs ! n)) = Inr (pearson (fold_byte h (bs ! n)) (drop (Suc n) bs))"
      using "1.IH" [of "bs ! n" "fold_byte h (bs ! n)"] "1.prems"(1) True nz step rest
      by (simp add: holds_str_read)
    then show ?thesis
      using "1.prems"(1) True nz step drop
      by (simp add: wiki_loop.simps [of ck p n h] holds_str_read)
  next
    case False
    with "1.prems"(2) have "n = length bs" by simp
    with "1.prems"(1) show ?thesis
      by (simp add: wiki_loop.simps [of ck p "length bs" h] holds_str_read_nul)
  qed
qed

lemma wiki_loop_skip:
  "holds_str p bs \<Longrightarrow> take (length xs) (drop k bs) = xs \<Longrightarrow> k + length xs \<le> length bs \<Longrightarrow>
   0 \<notin> set xs \<Longrightarrow> chars_ok ck xs \<Longrightarrow>
   wiki_loop ck p k h = wiki_loop ck p (k + length xs) (pearson h xs)"
proof (induction xs arbitrary: k h)
  case Nil
  then show ?case by simp
next
  case (Cons x xs)
  from Cons.prems(3) have k: "k < length bs" by simp
  then have "drop k bs = bs ! k # drop (Suc k) bs"
    by (rule Cons_nth_drop_Suc [symmetric])
  with Cons.prems(2) have x: "bs ! k = x" and rest: "take (length xs) (drop (Suc k) bs) = xs"
    by simp_all
  from Cons.prems(4,5) have nz: "x \<noteq> 0" and ok: "char_ok ck x" by simp_all
  have "wiki_loop ck p k h = wiki_loop ck p (Suc k) (fold_byte h x)"
    using Cons.prems(1) k x nz ok
    by (simp add: wiki_loop.simps [of ck p k h] holds_str_read pearson_step_ok fold_byte_def)
  also have "\<dots> = wiki_loop ck p (Suc k + length xs) (pearson (fold_byte h x) xs)"
    using Cons.prems rest by (intro Cons.IH) simp_all
  finally show ?case by simp
qed

lemma wiki_loop_bad_char:
  "holds_str p bs \<Longrightarrow> k < length bs \<Longrightarrow> bs ! k \<noteq> 0 \<Longrightarrow> \<not> char_ok ck (bs ! k) \<Longrightarrow>
   wiki_loop ck p k h = Inl (Table_index (uint h XOR sint (bs ! k)))"
  using pearson_step_bad [of ck "bs ! k" h]
  by (simp add: wiki_loop.simps [of ck p k h] holds_str_read)

lemma wiki_loop_unterminated:
  "cells p = map Some bs \<Longrightarrow> k \<le> length bs \<Longrightarrow> 0 \<notin> set (drop k bs) \<Longrightarrow> chars_ok ck (drop k bs) \<Longrightarrow>
   wiki_loop ck p k h = Inl (Read_oob (int (length bs)))"
proof (induction ck p k h rule: wiki_loop.induct)
  case (1 ck p k h)
  note unf = wiki_loop.simps [of ck p k h]
  show ?case
  proof (cases "k < length bs")
    case False
    with "1.prems" have k: "k = length bs" by simp
    with "1.prems"(1) have "obj_read p (int k) = Inl (Read_oob (int k))"
      by (simp add: obj_read_def)
    then show ?thesis
      unfolding unf using k by simp
  next
    case True
    then have drop: "drop k bs = bs ! k # drop (Suc k) bs"
      by (rule Cons_nth_drop_Suc [symmetric])
    with "1.prems"(3,4) have nz: "bs ! k \<noteq> 0" and ok: "char_ok ck (bs ! k)"
      and rest: "0 \<notin> set (drop (Suc k) bs)" "chars_ok ck (drop (Suc k) bs)"
      by simp_all
    have rd: "obj_read p (int k) = Inr (bs ! k)"
      using True "1.prems"(1) by (simp add: obj_read_def)
    have st: "pearson_step ck h (bs ! k) = Inr (pearson_lookup (h XOR bs ! k))"
      using ok by (rule pearson_step_ok)
    show ?thesis
      using "1.IH" [OF rd nz st] "1.prems"(1) True rest
      by (simp add: unf rd nz st)
  qed
qed

lemma holds_str_obj_read:
  "holds_str p bs \<Longrightarrow> k \<le> length bs \<Longrightarrow> obj_read p (int k) = Inr ((bs @ [0]) ! k)"
  using holds_str_length [of p bs] holds_str_nth [of p bs k] by (intro obj_read_cell) simp_all

lemma wiki_loop_same_str:
  "holds_str p bs \<Longrightarrow> holds_str q bs \<Longrightarrow> k \<le> length bs \<Longrightarrow> wiki_loop ck q k h = wiki_loop ck p k h"
proof (induction ck p k h rule: wiki_loop.induct)
  case (1 ck p k h)
  have rp: "obj_read p (int k) = Inr ((bs @ [0]) ! k)" and rq: "obj_read q (int k) = Inr ((bs @ [0]) ! k)"
    using "1.prems" by (simp_all add: holds_str_obj_read)
  note unf = wiki_loop.simps [of ck q k h] wiki_loop.simps [of ck p k h]
  show ?case
  proof (cases "(bs @ [0]) ! k = 0")
    case True
    then show ?thesis by (simp add: unf rp rq)
  next
    case nz: False
    with "1.prems"(3) have "Suc k \<le> length bs"
      by (cases "k = length bs") simp_all
    then show ?thesis
      using "1.IH" [OF rp nz] "1.prems"(1,2) nz
      by (cases "pearson_step ck h ((bs @ [0]) ! k)") (simp_all add: unf rp rq)
  qed
qed

subsection \<open>Properties of \<open>phash_wikipedia\<close>\<close>

text \<open>
  C1. On an object holding a NUL-terminated string whose characters all promote to
  non-negative values (any string with an unsigned \<open>char\<close>, ASCII with a signed
  one), \<open>phash_wikipedia\<close> returns the specification's \<open>hash_wikipedia\<close>: the
  fold of \<open>T[h XOR b]\<close> over the bytes from seed 0.
\<close>

theorem phash_wikipedia_refines:
  assumes "holds_str p bs" and "0 \<notin> set bs" and "chars_ok ck bs"
  shows "phash_wikipedia ck p = Inr (hash_wikipedia bs)"
  using wiki_loop_holds_str [of p bs 0 ck 0] assms
  by (simp add: phash_wikipedia_def hash_wikipedia_def)

theorem phash_wikipedia_refines_witness:
  "holds_str (c_str [104, 105]) [104, 105] \<and> 0 \<notin> set [104, 105 :: u8] \<and>
   chars_ok Signed_char [104, 105] \<and>
   phash_wikipedia Signed_char (c_str [104, 105]) = Inr (hash_wikipedia [104, 105])"
  using phash_wikipedia_refines [of "c_str [104, 105]" "[104, 105]" Signed_char]
  by (simp add: char_ok_def)

text \<open>
  C7. Where plain \<open>char\<close> is signed, the first byte \<open>\<ge> 0x80\<close> of the key promotes
  to a negative \<open>int\<close>, so \<open>hash ^ c\<close> is negative and \<open>pearson_T[hash ^ c]\<close>
  reads before the array: undefined behaviour on every non-ASCII key.
\<close>

theorem phash_wikipedia_signed_oob:
  assumes "holds_str p (xs @ b # ys)" and "0 \<notin> set (xs @ b # ys)"
    and "chars_ok Signed_char xs" and "128 \<le> b"
  shows "phash_wikipedia Signed_char p = Inl (Table_index (uint (hash_wikipedia xs) XOR sint b))
         \<and> uint (hash_wikipedia xs) XOR sint b < 0"
proof -
  let ?bs = "xs @ b # ys"
  have "wiki_loop Signed_char p 0 0 = wiki_loop Signed_char p (length xs) (pearson 0 xs)"
    using wiki_loop_skip [of p ?bs xs 0 Signed_char 0] assms by simp
  also have "\<dots> = Inl (Table_index (uint (pearson 0 xs) XOR sint b))"
    using assms wiki_loop_bad_char [of p ?bs "length xs" Signed_char "pearson 0 xs"]
    by (simp add: char_ok_def)
  finally show ?thesis
    using pearson_step_bad [of Signed_char b "pearson 0 xs"] assms(4)
    by (simp add: phash_wikipedia_def hash_wikipedia_def char_ok_def)
qed

theorem phash_wikipedia_signed_oob_witness:
  "holds_str (c_str [104, 200]) ([104] @ 200 # []) \<and> 0 \<notin> set ([104] @ 200 # ([] :: u8 list)) \<and>
   chars_ok Signed_char [104] \<and> (128 :: u8) \<le> 200 \<and>
   phash_wikipedia Signed_char (c_str [104, 200]) =
     Inl (Table_index (uint (hash_wikipedia [104]) XOR sint (200 :: u8))) \<and>
   uint (hash_wikipedia [104]) XOR sint (200 :: u8) < 0"
  using phash_wikipedia_signed_oob [of "c_str [104, 200]" "[104]" 200 "[]"]
  by (simp add: char_ok_def)

text \<open>
  C22. Two C strings that differ in exactly one byte position get different digests
  from \<open>phash_wikipedia\<close>: every byte influences the result.
\<close>

theorem phash_wikipedia_single_byte:
  assumes "holds_str p (xs @ a # ys)" and "holds_str q (xs @ b # ys)" and "a \<noteq> b"
    and "0 \<notin> set (xs @ a # ys)" and "0 \<notin> set (xs @ b # ys)"
    and "chars_ok ck (xs @ a # ys)" and "chars_ok ck (xs @ b # ys)"
  shows "phash_wikipedia ck p \<noteq> phash_wikipedia ck q"
  using wiki_loop_holds_str [of p "xs @ a # ys" 0 ck 0] wiki_loop_holds_str [of q "xs @ b # ys" 0 ck 0]
    pearson_single_byte [OF assms(3), of 0 xs ys] assms
  by (simp add: phash_wikipedia_def)

theorem phash_wikipedia_single_byte_witness:
  "holds_str (c_str [104, 105]) ([104] @ 105 # []) \<and> holds_str (c_str [104, 106]) ([104] @ 106 # []) \<and>
   (105 :: u8) \<noteq> 106 \<and> 0 \<notin> set ([104] @ 105 # ([] :: u8 list)) \<and> 0 \<notin> set ([104] @ 106 # ([] :: u8 list)) \<and>
   chars_ok Unsigned_char ([104] @ 105 # []) \<and> chars_ok Unsigned_char ([104] @ 106 # []) \<and>
   phash_wikipedia Unsigned_char (c_str [104, 105]) \<noteq> phash_wikipedia Unsigned_char (c_str [104, 106])"
  using phash_wikipedia_single_byte [of "c_str [104, 105]" "[104]" 105 "[]" "c_str [104, 106]" 106 Unsigned_char]
  by (simp add: char_ok_def)

text \<open>
  C23. The loop of \<open>phash_wikipedia\<close> reads nothing past the terminator: on an
  object holding a C string, the result (digest or error) depends only on the
  cells up to and including its first NUL, whatever the object holds after it.
\<close>

theorem phash_wikipedia_reads_to_nul:
  assumes "holds_str p bs" and "take (Suc (length bs)) (cells q) = take (Suc (length bs)) (cells p)"
  shows "phash_wikipedia ck q = phash_wikipedia ck p"
proof -
  have "holds_str q bs"
    using assms by (simp add: holds_str_def)
  then show ?thesis
    using wiki_loop_same_str [OF assms(1), of q 0 ck 0] by (simp add: phash_wikipedia_def)
qed

theorem phash_wikipedia_reads_to_nul_witness:
  "holds_str (c_str [104, 105]) [104, 105] \<and>
   take (Suc (length [104, 105 :: u8])) (cells \<lparr>cells = [Some 104, Some 105, Some 0, Some 7], below = (\<lambda>_. None)\<rparr>) =
     take (Suc (length [104, 105 :: u8])) (cells (c_str [104, 105])) \<and>
   phash_wikipedia Signed_char \<lparr>cells = [Some 104, Some 105, Some 0, Some 7], below = (\<lambda>_. None)\<rparr> =
     phash_wikipedia Signed_char (c_str [104, 105])"
proof -
  have t: "take (Suc (length [104, 105 :: u8])) (cells \<lparr>cells = [Some 104, Some 105, Some 0, Some 7], below = (\<lambda>_. None)\<rparr>) =
     take (Suc (length [104, 105 :: u8])) (cells (c_str [104, 105]))"
    by (simp add: c_str_def)
  show ?thesis
    by (intro conjI holds_str_c_str t phash_wikipedia_reads_to_nul [OF holds_str_c_str t])
qed
text \<open>
  C24. Line 73 says the function assumes the key ends with NUL. On an object with
  no NUL whose characters promote to non-negative values, \<open>phash_wikipedia\<close>
  reads the first cell past the object: undefined behaviour.
\<close>

theorem phash_wikipedia_unterminated:
  assumes "cells p = map Some bs" and "0 \<notin> set bs" and "chars_ok ck bs"
  shows "phash_wikipedia ck p = Inl (Read_oob (int (length bs)))"
  using wiki_loop_unterminated [of p bs 0 ck 0] assms by (simp add: phash_wikipedia_def)

theorem phash_wikipedia_unterminated_witness:
  "cells \<lparr>cells = [Some 104, Some 105], below = (\<lambda>_. None)\<rparr> = map Some [104, 105] \<and>
   0 \<notin> set [104, 105 :: u8] \<and> chars_ok Signed_char [104, 105] \<and>
   phash_wikipedia Signed_char \<lparr>cells = [Some 104, Some 105], below = (\<lambda>_. None)\<rparr> =
     Inl (Read_oob (int (length [104, 105 :: u8])))"
  using phash_wikipedia_unterminated [of "\<lparr>cells = [Some 104, Some 105], below = (\<lambda>_. None)\<rparr>" "[104, 105]" Signed_char]
  by (simp add: char_ok_def)

end
