(* ===== verification/Hash16.thy ===== *)
theory Hash16
  imports Wikipedia
begin

text \<open>
  \<open>phash16\<close> (\<open>src/pearson-hashing.c\<close>, lines 97--105): \<open>length = strlen(key)\<close>,
  \<open>buffer = malloc(length)\<close> (a null pointer, never checked, is an error at
  its first use, the \<open>memcpy\<close>), \<open>memcpy(buffer, key, length)\<close>,
  \<open>buffer[length] = 0\<close>, \<open>h1 = phash_wikipedia(buffer)\<close>,
  \<open>buffer[0] = (buffer[0] + 1) % 255\<close> (\<open>perturb_char\<close>: a plain \<open>char\<close>
  promoted, incremented, C's truncating remainder, converted back to \<open>char\<close>
  modulo 256), \<open>h2 = phash_wikipedia(buffer)\<close>, \<open>free(buffer)\<close> and the result
  \<open>(h1 << 8) + h2\<close> computed in \<open>int\<close> and converted to \<open>unsigned short\<close>
  (\<open>ushort_ret\<close>). The comma operators sequence the steps in this order.
  The lemmas: the packing never overflows and its two bytes are \<open>h1\<close> and \<open>h2\<close>;
  the terminator is written one past the block, so under a strict allocator every
  call overflows the heap; with one byte of slack the result is the specification's
  two hashes, the perturbed string read up to its first NUL, which is the
  specification's \<open>hash16\<close> on an unsigned-\<open>char\<close> platform except for a first
  byte \<open>0xFE\<close>, and on a signed one for ASCII keys except a first byte \<open>0x7F\<close>;
  on a signed-\<open>char\<close> platform \<open>% 255\<close> never changes the value, and a key
  starting with \<open>0x7f\<close> makes the second hash index the table with a negative
  subscript.
\<close>

unbundle bit_operations_syntax

definition perturb_char :: "char_kind \<Rightarrow> u8 \<Rightarrow> u8" where
  "perturb_char ck c = word_of_int (c_rem (char_val ck c + 1) 255)"

definition ushort_ret :: "u8 \<Rightarrow> u8 \<Rightarrow> u16" where
  "ushort_ret h1 h2 = word_of_int (push_bit 8 (uint h1) + uint h2)"

definition phash16 :: "allocator \<Rightarrow> char_kind \<Rightarrow> mem_obj \<Rightarrow> u16 cres" where
  "phash16 A ck key =
     cbind (strlen key) (\<lambda>length.
     cbind (deref (malloc A length)) (\<lambda>buffer.
     cbind (memcpy buffer key length) (\<lambda>buffer.
     cbind (obj_write buffer (int length) 0) (\<lambda>buffer.
     cbind (phash_wikipedia ck buffer) (\<lambda>h1.
     cbind (obj_read buffer 0) (\<lambda>b0.
     cbind (obj_write buffer 0 (perturb_char ck b0)) (\<lambda>buffer.
     cbind (phash_wikipedia ck buffer) (\<lambda>h2.
     Inr (ushort_ret h1 h2)))))))))"

subsection \<open>The packing \<open>(h1 << 8) + h2\<close>\<close>

lemma uint_ushort_ret: "uint (ushort_ret h1 h2) = uint h1 * 256 + uint h2"
proof -
  have "0 \<le> uint h1 * 256 + uint h2" by simp
  moreover have "uint h1 * 256 + uint h2 < 2 ^ 16"
    using uint_u8_less [of h1] uint_u8_less [of h2] by simp
  ultimately have "take_bit 16 (uint h1 * 256 + uint h2) = uint h1 * 256 + uint h2"
    by (simp add: take_bit_int_eq_self)
  then show ?thesis
    by (simp only: ushort_ret_def push_bit_eq_mult uint_word_of_int_eq) simp
qed
lemma ushort_ret_high: "drop_bit 8 (ushort_ret h1 h2) = ucast h1"
proof (rule unsigned_word_eqI [where ?'a = int])
  have b: "0 \<le> uint h1 * 256 + uint h2 \<and> uint h1 * 256 + uint h2 < 2 ^ 16"
    using uint_u8_less [of h1] uint_u8_less [of h2] by simp
  have "uint (drop_bit 8 (ushort_ret h1 h2)) = drop_bit 8 (take_bit 16 (uint (ushort_ret h1 h2)))"
    using unsigned_drop_bit_eq [of 8 "ushort_ret h1 h2"] by simp
  also have "\<dots> = (uint h1 * 256 + uint h2) div 256"
    using b by (simp only: uint_ushort_ret take_bit_int_eq_self drop_bit_eq_div) simp
  also have "\<dots> = uint h1"
    using uint_u8_less [of h2] by simp
  also have "\<dots> = uint (ucast h1 :: u16)"
    using uint_u8_less [of h1] by (simp add: unsigned_ucast_eq take_bit_int_eq_self)
  finally show "uint (drop_bit 8 (ushort_ret h1 h2)) = uint (ucast h1 :: u16)" .
qed

lemma ushort_ret_low: "(ucast (ushort_ret h1 h2) :: u8) = h2"
proof (rule unsigned_word_eqI [where ?'a = int])
  have "(uint h1 * 256 + uint h2) mod 256 = uint h2"
    using uint_u8_less [of h2] by simp
  then show "uint (ucast (ushort_ret h1 h2) :: u8) = uint h2"
    by (simp add: unsigned_ucast_eq uint_ushort_ret take_bit_eq_mod)
qed
lemma ushort_ret_disjoint: "push_bit 8 (uint (h1::u8)) + uint (h2::u8) = push_bit 8 (uint h1) OR uint h2"
  by (rule disjunctive_add) (auto simp: bit_push_bit_iff bit_uint_iff)
lemma ushort_ret_or: "ushort_ret h1 h2 = push_bit 8 (ucast h1) OR ucast h2"
  by (rule bit_word_eqI) (auto simp: ushort_ret_def ushort_ret_disjoint bit_simps bit_uint_iff)
lemma ushort_ret_inj: "ushort_ret h1 h2 = ushort_ret h1' h2' \<longleftrightarrow> h1 = h1' \<and> h2 = h2'"
proof
  assume e: "ushort_ret h1 h2 = ushort_ret h1' h2'"
  then have "h2 = h2'" by (metis ushort_ret_low)
  moreover have "uint h1 = uint h1'"
  proof -
    have "uint h1 * 256 + uint h2 = uint h1' * 256 + uint h2'"
      using e by (metis uint_ushort_ret)
    then show ?thesis using \<open>h2 = h2'\<close> by simp
  qed
  ultimately show "h1 = h1' \<and> h2 = h2'"
    by (simp add: unsigned_word_eqI)
qed simp

subsection \<open>The perturbation\<close>

lemma perturb_char_unsigned: "perturb_char Unsigned_char c = perturb c"
proof -
  have "c_rem (uint c + 1) 255 = (uint c + 1) mod 255"
    by (simp add: c_rem_nonneg)
  moreover have "(uint c + 1) mod 255 = int ((unat c + 1) mod 255)"
    by (simp only: uint_nat zmod_int) (simp add: add.commute)
  ultimately show ?thesis
    by (simp only: perturb_char_def perturb_def char_val_def char_kind.case of_int_of_nat_eq)
qed

lemma perturb_char_signed: "perturb_char Signed_char c = c + 1"
proof -
  have "\<bar>sint c + 1\<bar> < \<bar>255\<bar>"
    using sint_ge [of c] sint_lt [of c] by simp
  then have "c_rem (sint c + 1) 255 = sint c + 1"
    by (rule c_rem_small)
  then show ?thesis
    by (simp add: perturb_char_def char_val_def)
qed

subsection \<open>The buffer\<close>

lemma phash16_terminate:
  assumes "0 < slack A (length bs)"
  shows "obj_write \<lparr>cells = map Some bs @ replicate (slack A (length bs)) None, below = header A\<rparr>
           (int (length bs)) 0 =
         Inr \<lparr>cells = map Some (bs @ [0]) @ replicate (slack A (length bs) - 1) None, below = header A\<rparr>"
proof -
  obtain k where k: "slack A (length bs) = Suc k"
    using assms by (cases "slack A (length bs)") simp_all
  then show ?thesis
    by (simp add: obj_write_def list_update_append)
qed

lemma holds_str_first_update:
  assumes "holds_str q (b # rest)" and "0 \<notin> set rest" and "obj_write q 0 v = Inr q'"
  shows "holds_str q' (takeWhile (\<lambda>x. x \<noteq> 0) (v # rest))"
proof -
  have len: "Suc (Suc (length rest)) \<le> length (cells q)"
    using holds_str_length [OF assms(1)] by simp
  have "0 < length (cells q)"
    using len by linarith
  then have "obj_write q 0 v = Inr (q\<lparr>cells := (cells q)[0 := Some v]\<rparr>)"
    using obj_write_cell [of 0 q v] by simp
  with assms(3) have q': "cells q' = (cells q)[0 := Some v]"
    by auto
  have tk: "take (Suc (Suc (length rest))) (cells q') = map Some ((v # rest) @ [0])"
    using assms(1) q' by (simp add: holds_str_def take_update_swap)
  show ?thesis
  proof (cases "v = 0")
    case True
    have "take 1 (cells q') = take 1 (take (Suc (Suc (length rest))) (cells q'))"
      by simp
    also have "\<dots> = [Some 0]"
      using tk True by simp
    finally show ?thesis
      using True by (simp add: holds_str_def)
  next
    case False
    then have "takeWhile (\<lambda>x. x \<noteq> 0) (v # rest) = v # rest"
      using assms(2) by (auto simp: takeWhile_eq_all_conv)
    then show ?thesis
      using tk by (simp add: holds_str_def)
  qed
qed

lemma phash16_second:
  assumes "0 < slack A (length (b # rest))" and "holds_str p (b # rest)" and "0 \<notin> set (b # rest)"
    and "chars_ok ck (b # rest)" and "\<not> fails A (length (b # rest))"
  shows "\<exists>q. holds_str q (takeWhile (\<lambda>x. x \<noteq> 0) (perturb_char ck b # rest)) \<and>
             phash16 A ck p = cbind (phash_wikipedia ck q) (\<lambda>h2. Inr (ushort_ret (hash_wikipedia (b # rest)) h2))"
proof -
  let ?bs = "b # rest"
  let ?buf = "\<lparr>cells = map Some (?bs @ [0]) @ replicate (slack A (length ?bs) - 1) None, below = header A\<rparr>"
  let ?v = "perturb_char ck b"
  let ?buf2 = "?buf\<lparr>cells := (cells ?buf)[0 := Some ?v]\<rparr>"
  have cp: "memcpy (fresh_block A (length ?bs)) p (length ?bs) =
      Inr \<lparr>cells = map Some ?bs @ replicate (slack A (length ?bs)) None, below = header A\<rparr>"
    using assms(2) by (rule memcpy_fresh_block_holds_str)
  have trm: "obj_write \<lparr>cells = map Some ?bs @ replicate (slack A (length ?bs)) None, below = header A\<rparr>
      (int (length ?bs)) 0 = Inr ?buf"
    using assms(1) by (rule phash16_terminate)
  have hs: "holds_str ?buf ?bs"
    by (simp add: holds_str_def)
  have h1: "phash_wikipedia ck ?buf = Inr (hash_wikipedia ?bs)"
    using wiki_loop_holds_str [OF hs, of 0 ck 0] assms(3,4) by (simp add: phash_wikipedia_def hash_wikipedia_def)
  have b0: "obj_read ?buf 0 = Inr b"
    using holds_str_read [OF hs, of 0] by simp
  have wr: "obj_write ?buf 0 ?v = Inr ?buf2"
    by (simp add: obj_write_def)
  have hs2: "holds_str ?buf2 (takeWhile (\<lambda>x. x \<noteq> 0) (?v # rest))"
    using hs assms(3) wr by (intro holds_str_first_update) simp_all
  have sl: "strlen p = Inr (length ?bs)"
    using assms(2,3) by (rule strlen_holds_str)
  have ok: "deref (malloc A (length ?bs)) = Inr (fresh_block A (length ?bs))"
    using assms(5) by (rule malloc_ok)
  have "phash16 A ck p = cbind (phash_wikipedia ck ?buf2) (\<lambda>h2. Inr (ushort_ret (hash_wikipedia ?bs) h2))"
    by (simp only: phash16_def sl ok cp trm h1 b0 wr cbind_Inr)
  with hs2 show ?thesis by blast
qed

lemma phash16_slack:
  assumes "0 < slack A (length (b # rest))" and "holds_str p (b # rest)" and "0 \<notin> set (b # rest)"
    and "chars_ok ck (b # rest)" and "chars_ok ck (takeWhile (\<lambda>x. x \<noteq> 0) (perturb_char ck b # rest))"
    and "\<not> fails A (length (b # rest))"
  shows "phash16 A ck p = Inr (ushort_ret (hash_wikipedia (b # rest))
                                 (hash_wikipedia (takeWhile (\<lambda>x. x \<noteq> 0) (perturb_char ck b # rest))))"
proof -
  let ?ws = "takeWhile (\<lambda>x. x \<noteq> 0) (perturb_char ck b # rest)"
  obtain q where hs2: "holds_str q ?ws"
    and eq: "phash16 A ck p = cbind (phash_wikipedia ck q) (\<lambda>h2. Inr (ushort_ret (hash_wikipedia (b # rest)) h2))"
    using phash16_second [OF assms(1-4) assms(6)] by blast
  have nz2: "0 \<notin> set ?ws"
    by (auto dest: set_takeWhileD)
  have "phash_wikipedia ck q = Inr (hash_wikipedia ?ws)"
    using wiki_loop_holds_str [OF hs2, of 0 ck 0] nz2 assms(5) by (simp add: phash_wikipedia_def hash_wikipedia_def)
  with eq show ?thesis by simp
qed

lemma unat_perturb: "unat (perturb b) = (unat b + 1) mod 255"
  by (simp add: perturb_def unat_of_nat)
lemma mod255: "(n::nat) < 256 \<Longrightarrow> (n + 1) mod 255 = (if n = 254 then 0 else if n = 255 then 1 else n + 1)"
  by (auto simp: mod_if)
lemma perturb_eq_0_iff: "perturb b = 0 \<longleftrightarrow> b = 254"
proof -
  have "perturb b = 0 \<longleftrightarrow> (unat b + 1) mod 255 = 0"
    by (simp only: unat_perturb [symmetric] unat_eq_zero)
  also have "\<dots> \<longleftrightarrow> unat b = 254"
    using mod255 [OF unat_u8_less [of b]] by simp
  also have "\<dots> \<longleftrightarrow> b = 254"
    by (simp add: word_unat_eq_iff)
  finally show ?thesis .
qed
lemma perturb_char_ne: "perturb_char ck b \<noteq> b"
proof (cases ck)
  case Signed_char
  then show ?thesis by (simp add: perturb_char_signed)
next
  case Unsigned_char
  have "(unat b + 1) mod 255 \<noteq> unat b"
    using mod255 [OF unat_u8_less [of b]] by simp
  then have "perturb b \<noteq> b"
    by (metis unat_perturb)
  with Unsigned_char show ?thesis
    by (simp add: perturb_char_unsigned)
qed

lemma perturb_char_zero: "perturb_char ck 0 = 1"
  by (simp add: perturb_char_def char_val_def c_rem_small split: char_kind.split)

lemma perturb_small: "b < 127 \<Longrightarrow> perturb b = b + 1"
proof -
  assume "b < 127"
  then have u: "unat b < 127" by (simp add: word_less_nat_alt)
  then have "unat (perturb b) = unat b + 1" by (simp add: unat_perturb)
  moreover have "unat (b + 1) = unat b + 1"
    using u by (simp add: unat_add_lem [THEN iffD1])
  ultimately show ?thesis by (simp add: word_unat_eq_iff)
qed

lemma signed_ascii_succ:
  assumes "(b :: u8) < 128" and "b \<noteq> 127"
  shows "b < 127" and "b + 1 \<noteq> 0" and "b + 1 < 128"
proof -
  have u: "unat b < 127"
    using assms by (simp add: word_less_nat_alt word_unat_eq_iff)
  then show "b < 127" by (simp add: word_less_nat_alt)
  have "unat (b + 1) = unat b + 1"
    using u by (simp add: unat_add_lem [THEN iffD1])
  with u show "b + 1 \<noteq> 0" and "b + 1 < 128"
    by (simp_all add: word_less_nat_alt unat_eq_zero [symmetric] del: unat_eq_zero)
qed

lemma wiki_loop_one_gap:
  assumes "cells q = Some 1 # rest" and "rest = [] \<or> hd rest = None"
  shows "wiki_loop ck q 0 0 = Inl (if rest = [] then Read_oob 1 else Read_uninit 1)"
proof -
  have st: "pearson_step ck 0 1 = Inr (pearson_lookup 1)"
    by (simp add: pearson_step_ok char_ok_def)
  have r0: "obj_read q 0 = Inr 1"
    using assms(1) by (simp add: obj_read_def)
  have r1: "obj_read q 1 = Inl (if rest = [] then Read_oob 1 else Read_uninit 1)"
    using assms by (cases rest) (auto simp: obj_read_def)
  show ?thesis
    using st r0 r1
    by (simp add: wiki_loop.simps [of ck q 0 0] wiki_loop.simps [of ck q "Suc 0" "pearson_lookup 1"])
qed

lemma phash16_empty_no_spare:
  assumes "\<not> fails A 0" and "slack A 0 = 0"
  shows "phash16 A ck (c_str []) = Inl (Write_oob 0)"
proof -
  have cp: "memcpy (fresh_block A 0) (c_str []) 0 = Inr \<lparr>cells = [], below = header A\<rparr>"
    using memcpy_fresh_block_holds_str [OF holds_str_c_str [of "[]"], of A] assms(2) by simp
  show ?thesis
    using assms cp strlen_holds_str [OF holds_str_c_str [of "[]"]]
    by (simp add: phash16_def obj_write_def)
qed

lemma phash16_empty_spare:
  assumes "\<not> fails A 0" and "slack A 0 = Suc k"
  shows "phash16 A ck (c_str []) = Inl (if k = 0 then Read_oob 1 else Read_uninit 1)"
proof -
  have mk: "deref (malloc A (length ([] :: u8 list))) = Inr (fresh_block A (length ([] :: u8 list)))"
    using assms(1) by simp
  let ?buf = "\<lparr>cells = map Some ([] @ [0]) @ replicate (slack A (length ([] :: u8 list)) - 1) None, below = header A\<rparr>"
  let ?buf2 = "?buf\<lparr>cells := (cells ?buf)[0 := Some 1]\<rparr>"
  have cp: "memcpy (fresh_block A (length ([] :: u8 list))) (c_str []) (length ([] :: u8 list)) =
      Inr \<lparr>cells = map Some [] @ replicate (slack A (length ([] :: u8 list))) None, below = header A\<rparr>"
    by (rule memcpy_fresh_block_holds_str) simp
  have trm: "obj_write \<lparr>cells = map Some [] @ replicate (slack A (length ([] :: u8 list))) None, below = header A\<rparr>
      (int (length ([] :: u8 list))) 0 = Inr ?buf"
    using assms(2) by (intro phash16_terminate) simp
  have hs: "holds_str ?buf []"
    by (simp add: holds_str_def)
  have h1: "phash_wikipedia ck ?buf = Inr 0"
    using wiki_loop_holds_str [OF hs, of 0 ck 0] by (simp add: phash_wikipedia_def)
  have b0: "obj_read ?buf 0 = Inr 0"
    using holds_str_read_nul [OF hs] by simp
  have wr: "obj_write ?buf 0 (perturb_char ck 0) = Inr ?buf2"
    by (simp add: obj_write_def perturb_char_zero)
  have "cells ?buf2 = Some 1 # replicate k None"
    using assms(2) by simp
  then have h2: "phash_wikipedia ck ?buf2 = Inl (if k = 0 then Read_oob 1 else Read_uninit 1)"
    by (cases k) (simp_all add: phash_wikipedia_def wiki_loop_one_gap)
  have sl: "strlen (c_str []) = Inr (length ([] :: u8 list))"
    by (rule strlen_holds_str) simp_all
  show ?thesis
    by (simp only: phash16_def sl mk cp trm h1 b0 wr h2 cbind_Inr cbind_Inl)
qed

subsection \<open>Properties of \<open>phash16\<close>\<close>

text \<open>
  C4. \<open>buffer\<close> has \<open>length\<close> bytes and \<open>buffer[length] = 0\<close> writes one past
  its end. Under an allocator that grants exactly the request, every call of
  \<open>phash16\<close> on a NUL-terminated key overflows the heap block.
\<close>

theorem phash16_strict_overflow:
  assumes "holds_str p bs" and "0 \<notin> set bs"
  shows "phash16 strict_alloc ck p = Inl (Write_oob (int (length bs)))"
proof -
  have cp: "memcpy (fresh_block strict_alloc (length bs)) p (length bs) =
      Inr \<lparr>cells = map Some bs @ replicate (slack strict_alloc (length bs)) None, below = header strict_alloc\<rparr>"
    using assms(1) by (rule memcpy_fresh_block_holds_str)
  show ?thesis
    using cp strlen_holds_str [OF assms] by (simp add: phash16_def strict_alloc_def obj_write_def)
qed

theorem phash16_strict_overflow_witness:
  "holds_str (c_str [104, 105]) [104, 105] \<and> 0 \<notin> set [104, 105 :: u8] \<and>
   phash16 strict_alloc Unsigned_char (c_str [104, 105]) = Inl (Write_oob 2)"
  using phash16_strict_overflow [of "c_str [104, 105]" "[104, 105]" Unsigned_char] by simp

text \<open>
  C5. Where plain \<open>char\<close> is unsigned and \<open>malloc\<close> leaves at least one spare
  byte (so that the terminator lands inside the block), \<open>phash16\<close> returns the
  specification's \<open>hash16\<close> for every non-empty key whose first byte is not
  \<open>0xFE\<close>: high byte \<open>hash_wikipedia key\<close>, low byte the hash with the first
  byte replaced by \<open>(b + 1) mod 255\<close>.
\<close>

theorem phash16_refines_unsigned:
  assumes "0 < slack A (length (b # rest))" and "holds_str p (b # rest)" and "0 \<notin> set (b # rest)"
    and "b \<noteq> 254" and "\<not> fails A (length (b # rest))"
  shows "\<exists>h. phash16 A Unsigned_char p = Inr h \<and> hash16 (b # rest) = Some h"
proof -
  have ok: "chars_ok Unsigned_char xs" for xs
    by (simp add: char_ok_def list_all_iff)
  have "perturb b \<noteq> 0"
    using assms(4) by (simp add: perturb_eq_0_iff)
  then have tw: "takeWhile (\<lambda>x. x \<noteq> 0) (perturb b # rest) = perturb b # rest"
    using assms(3) by (auto simp: takeWhile_eq_all_conv)
  have "phash16 A Unsigned_char p = Inr (ushort_ret (hash_wikipedia (b # rest)) (hash_wikipedia (perturb b # rest)))"
    using phash16_slack [OF assms(1-3) ok ok assms(5)] tw by (simp add: perturb_char_unsigned)
  then show ?thesis
    by (simp add: hash16_def ushort_ret_or)
qed

theorem phash16_refines_unsigned_witness:
  "0 < slack \<lparr>slack = (\<lambda>_. 8), header = (\<lambda>_. None), fails = (\<lambda>_. False)\<rparr> (length [104 :: u8, 105]) \<and>
   holds_str (c_str [104, 105]) [104, 105] \<and> 0 \<notin> set [104 :: u8, 105] \<and> (104 :: u8) \<noteq> 254 \<and>
   \<not> fails \<lparr>slack = (\<lambda>_. 8), header = (\<lambda>_. None), fails = (\<lambda>_. False)\<rparr> (length [104 :: u8, 105]) \<and>
   (\<exists>h. phash16 \<lparr>slack = (\<lambda>_. 8), header = (\<lambda>_. None), fails = (\<lambda>_. False)\<rparr> Unsigned_char (c_str [104, 105]) = Inr h \<and>
        hash16 [104, 105] = Some h)"
  using phash16_refines_unsigned [of "\<lparr>slack = (\<lambda>_. 8), header = (\<lambda>_. None), fails = (\<lambda>_. False)\<rparr>" 104 "[105]" "c_str [104, 105]"]
  by simp

text \<open>
  C21. Where plain \<open>char\<close> is signed, \<open>phash16\<close> returns the specification's
  \<open>hash16\<close> for every non-empty ASCII key whose first byte is not \<open>0x7F\<close>, when
  the allocation succeeds with a spare byte: below \<open>0x7F\<close>, \<open>b + 1\<close> and
  \<open>(b + 1) mod 255\<close> coincide and stay ASCII.
\<close>

theorem phash16_refines_signed:
  assumes "0 < slack A (length (b # rest))" and "holds_str p (b # rest)" and "0 \<notin> set (b # rest)"
    and "chars_ok Signed_char (b # rest)" and "b \<noteq> 127" and "\<not> fails A (length (b # rest))"
  shows "\<exists>h. phash16 A Signed_char p = Inr h \<and> hash16 (b # rest) = Some h"
proof -
  have b: "b < 128"
    using assms(4) by (simp add: char_ok_def)
  note s = signed_ascii_succ [OF b assms(5)]
  have pb: "perturb_char Signed_char b = perturb b"
    using s(1) by (simp add: perturb_char_signed perturb_small)
  have tw: "takeWhile (\<lambda>x. x \<noteq> 0) (perturb b # rest) = perturb b # rest"
    using s(1,2) assms(3) by (auto simp: perturb_small takeWhile_eq_all_conv)
  have ok: "chars_ok Signed_char (takeWhile (\<lambda>x. x \<noteq> 0) (perturb_char Signed_char b # rest))"
    unfolding pb tw using assms(4) s(1,3) by (simp add: perturb_small char_ok_def)
  have "phash16 A Signed_char p = Inr (ushort_ret (hash_wikipedia (b # rest)) (hash_wikipedia (perturb b # rest)))"
    using phash16_slack [OF assms(1-4) ok assms(6)] unfolding pb tw .
  then show ?thesis
    by (simp add: hash16_def ushort_ret_or)
qed

theorem phash16_refines_signed_witness:
  "0 < slack \<lparr>slack = (\<lambda>_. 8), header = (\<lambda>_. None), fails = (\<lambda>_. False)\<rparr> (length [104 :: u8, 105]) \<and>
   holds_str (c_str [104, 105]) [104, 105] \<and> 0 \<notin> set [104 :: u8, 105] \<and>
   chars_ok Signed_char [104, 105] \<and> (104 :: u8) \<noteq> 127 \<and>
   \<not> fails \<lparr>slack = (\<lambda>_. 8), header = (\<lambda>_. None), fails = (\<lambda>_. False)\<rparr> (length [104 :: u8, 105]) \<and>
   (\<exists>h. phash16 \<lparr>slack = (\<lambda>_. 8), header = (\<lambda>_. None), fails = (\<lambda>_. False)\<rparr> Signed_char (c_str [104, 105]) = Inr h \<and> hash16 [104, 105] = Some h)"
  using phash16_refines_signed [of "\<lparr>slack = (\<lambda>_. 8), header = (\<lambda>_. None), fails = (\<lambda>_. False)\<rparr>" 104 "[105]" "c_str [104, 105]"]
  by (simp add: char_ok_def)

text \<open>
  C15. Where \<open>char\<close> is unsigned, a first byte \<open>0xFE\<close> is perturbed to
  \<open>(254 + 1) % 255 = 0\<close>, which ends the C string: the second hash is that of the
  empty string, so every key starting with \<open>0xFE\<close> gets the low byte 0. The
  specification hashes the perturbed buffer as a byte sequence of the same length,
  \<open>0 # rest\<close> (for the key \<open>"\xFE"\<close>: \<open>0xEA00\<close> against \<open>0xEAFB\<close>).
\<close>

theorem phash16_unsigned_fe:
  assumes "0 < slack A (length (254 # rest))" and "holds_str p (254 # rest)" and "0 \<notin> set rest"
    and "\<not> fails A (length (254 # rest))"
  shows "phash16 A Unsigned_char p = Inr (ushort_ret (hash_wikipedia (254 # rest)) 0) \<and>
         hash16 (254 # rest) = Some (ushort_ret (hash_wikipedia (254 # rest)) (hash_wikipedia (0 # rest)))"
proof -
  have ok: "chars_ok Unsigned_char xs" for xs
    by (simp add: char_ok_def list_all_iff)
  have nz: "0 \<notin> set (254 # rest)"
    using assms(3) by simp
  have p0: "perturb_char Unsigned_char 254 = 0" and "perturb 254 = 0"
    by (simp_all add: perturb_char_unsigned perturb_eq_0_iff)
  then show ?thesis
    using phash16_slack [OF assms(1,2) nz ok ok assms(4)]
    by (simp add: hash16_def ushort_ret_or hash_wikipedia_def)
qed

theorem phash16_unsigned_fe_witness:
  "0 < slack \<lparr>slack = (\<lambda>_. 8), header = (\<lambda>_. None), fails = (\<lambda>_. False)\<rparr> (length [254 :: u8, 104]) \<and>
   holds_str (c_str [254, 104]) [254, 104] \<and> 0 \<notin> set [104 :: u8] \<and>
   \<not> fails \<lparr>slack = (\<lambda>_. 8), header = (\<lambda>_. None), fails = (\<lambda>_. False)\<rparr> (length [254 :: u8, 104]) \<and>
   phash16 \<lparr>slack = (\<lambda>_. 8), header = (\<lambda>_. None), fails = (\<lambda>_. False)\<rparr> Unsigned_char (c_str [254, 104]) = Inr (ushort_ret (hash_wikipedia [254, 104]) 0) \<and>
   hash16 [254, 104] = Some (ushort_ret (hash_wikipedia [254, 104]) (hash_wikipedia [0, 104]))"
  using phash16_unsigned_fe [of "\<lparr>slack = (\<lambda>_. 8), header = (\<lambda>_. None), fails = (\<lambda>_. False)\<rparr>" "[104]" "c_str [254, 104]"] by simp

text \<open>
  C16. \<open>(buffer[0] + 1) % 255\<close> on the two kinds of platform: with a signed
  \<open>char\<close> the promoted value lies in \<open>-128..127\<close>, so \<open>% 255\<close> never changes it
  and the byte is simply incremented modulo 256; with an unsigned \<open>char\<close> it is the
  specification's \<open>(b + 1) mod 255\<close>.
\<close>

theorem perturb_char_platforms:
  "perturb_char Signed_char c = c + 1 \<and> perturb_char Unsigned_char c = perturb c"
  by (simp add: perturb_char_signed perturb_char_unsigned)

text \<open>
  C17. Where \<open>char\<close> is signed, a key starting with \<open>0x7F\<close> (ASCII DEL) is
  perturbed to \<open>0x80\<close>, a negative \<open>char\<close>: the second call of
  \<open>phash_wikipedia\<close> subscripts the table with \<open>0 ^ -128\<close>.
\<close>

theorem phash16_signed_del:
  assumes "0 < slack A (length (127 # rest))" and "holds_str p (127 # rest)" and "0 \<notin> set rest"
    and "chars_ok Signed_char rest" and "\<not> fails A (length (127 # rest))"
  shows "phash16 A Signed_char p = Inl (Table_index (-128))"
proof -
  have ok: "chars_ok Signed_char (127 # rest)"
    using assms(4) by (simp add: char_ok_def)
  obtain q where hs2: "holds_str q (takeWhile (\<lambda>x. x \<noteq> 0) (perturb_char Signed_char 127 # rest))"
    and eq: "phash16 A Signed_char p =
               cbind (phash_wikipedia Signed_char q) (\<lambda>h2. Inr (ushort_ret (hash_wikipedia (127 # rest)) h2))"
    using phash16_second [OF assms(1,2) _ ok assms(5)] assms(3) by auto
  have p127: "perturb_char Signed_char 127 = 128"
    by (simp add: perturb_char_signed)
  have tw: "takeWhile (\<lambda>x. x \<noteq> 0) rest = rest"
    using assms(3) by (auto simp: takeWhile_eq_all_conv)
  have nz: "\<not> (128 :: u8) = 0"
    by simp
  have hs: "holds_str q (128 # rest)"
    using hs2 by (simp only: p127 takeWhile.simps nz tw simp_thms if_True)
  have "phash_wikipedia Signed_char q = Inl (Table_index (uint (0 :: u8) XOR sint (128 :: u8)))"
    using wiki_loop_bad_char [OF hs, of 0 Signed_char 0] by (simp add: phash_wikipedia_def char_ok_def)
  then show ?thesis
    using eq by simp
qed

theorem phash16_signed_del_witness:
  "0 < slack \<lparr>slack = (\<lambda>_. 8), header = (\<lambda>_. None), fails = (\<lambda>_. False)\<rparr> (length [127 :: u8, 104]) \<and>
   holds_str (c_str [127, 104]) [127, 104] \<and> 0 \<notin> set [104 :: u8] \<and> chars_ok Signed_char [104] \<and>
   \<not> fails \<lparr>slack = (\<lambda>_. 8), header = (\<lambda>_. None), fails = (\<lambda>_. False)\<rparr> (length [127 :: u8, 104]) \<and>
   phash16 \<lparr>slack = (\<lambda>_. 8), header = (\<lambda>_. None), fails = (\<lambda>_. False)\<rparr> Signed_char (c_str [127, 104]) = Inl (Table_index (-128))"
  using phash16_signed_del [of "\<lparr>slack = (\<lambda>_. 8), header = (\<lambda>_. None), fails = (\<lambda>_. False)\<rparr>" "[104]" "c_str [127, 104]"]
  by (simp add: char_ok_def)

text \<open>
  C18. The empty key: with no spare byte the terminator write overflows; with one
  spare byte the perturbed buffer \<open>"\x01"\<close> has no terminator inside the block;
  with more, the byte after it is indeterminate. Every allocator gives an error,
  which the specification also requires (\<open>InvalidInput\<close>).
\<close>

theorem phash16_empty_ub:
  "phash16 A ck (c_str []) =
     Inl (if fails A 0 then Null_deref
          else if slack A 0 = 0 then Write_oob 0 else if slack A 0 = 1 then Read_oob 1 else Read_uninit 1)"
proof (cases "fails A 0")
  case True
  then show ?thesis
    using strlen_holds_str [OF holds_str_c_str [of "[]"]] by (simp add: phash16_def)
next
  case ok: False
  show ?thesis
  proof (cases "slack A 0")
    case 0
    with ok show ?thesis by (simp add: phash16_empty_no_spare)
  next
    case (Suc k)
    with ok show ?thesis by (simp add: phash16_empty_spare [OF ok Suc])
  qed
qed

text \<open>
  C19. The two bytes of \<open>phash16\<close> always differ when the perturbed first byte is
  not a NUL: the keys hashed for them differ in exactly their first byte, since
  \<open>(b + 1) % 255\<close> never equals \<open>b\<close>.
\<close>

theorem phash16_bytes_differ:
  assumes "0 < slack A (length (b # rest))" and "holds_str p (b # rest)" and "0 \<notin> set (b # rest)"
    and "chars_ok ck (b # rest)" and "char_ok ck (perturb_char ck b)" and "perturb_char ck b \<noteq> 0"
    and "\<not> fails A (length (b # rest))"
  shows "\<exists>h1 h2. phash16 A ck p = Inr (ushort_ret h1 h2) \<and> h1 \<noteq> h2"
proof -
  have tw: "takeWhile (\<lambda>x. x \<noteq> 0) (perturb_char ck b # rest) = perturb_char ck b # rest"
    using assms(3,6) by (auto simp: takeWhile_eq_all_conv)
  have ok: "chars_ok ck (takeWhile (\<lambda>x. x \<noteq> 0) (perturb_char ck b # rest))"
    using assms(4,5) tw by simp
  have "hash_wikipedia (b # rest) \<noteq> hash_wikipedia (perturb_char ck b # rest)"
    using pearson_single_byte [of b "perturb_char ck b" 0 "[]" rest] perturb_char_ne [of ck b]
    by (simp add: hash_wikipedia_def)
  then show ?thesis
    using phash16_slack [OF assms(1-4) ok assms(7)] tw by auto
qed

theorem phash16_bytes_differ_witness:
  "0 < slack \<lparr>slack = (\<lambda>_. 8), header = (\<lambda>_. None), fails = (\<lambda>_. False)\<rparr> (length [104 :: u8, 105]) \<and>
   holds_str (c_str [104, 105]) [104, 105] \<and> 0 \<notin> set [104 :: u8, 105] \<and>
   chars_ok Signed_char [104, 105] \<and> char_ok Signed_char (perturb_char Signed_char 104) \<and>
   perturb_char Signed_char 104 \<noteq> 0 \<and> \<not> fails \<lparr>slack = (\<lambda>_. 8), header = (\<lambda>_. None), fails = (\<lambda>_. False)\<rparr> (length [104 :: u8, 105]) \<and>
   (\<exists>h1 h2. phash16 \<lparr>slack = (\<lambda>_. 8), header = (\<lambda>_. None), fails = (\<lambda>_. False)\<rparr> Signed_char (c_str [104, 105]) =
      Inr (ushort_ret h1 h2) \<and> h1 \<noteq> h2)"
  using phash16_bytes_differ [of "\<lparr>slack = (\<lambda>_. 8), header = (\<lambda>_. None), fails = (\<lambda>_. False)\<rparr>" 104 "[105]" "c_str [104, 105]" Signed_char]
  by (simp add: char_ok_def perturb_char_signed)

text \<open>
  C20. \<open>(h1 << 8) + h2\<close>, computed in \<open>int\<close> and returned as
  \<open>unsigned short\<close>, never overflows: the value is \<open>256 h1 + h2\<close>, its high byte
  is \<open>h1\<close> and its low byte \<open>h2\<close>.
\<close>

theorem ushort_ret_bytes:
  "uint (ushort_ret h1 h2) = uint h1 * 256 + uint h2 \<and>
   drop_bit 8 (ushort_ret h1 h2) = ucast h1 \<and> (ucast (ushort_ret h1 h2) :: u8) = h2"
  by (simp only: uint_ushort_ret ushort_ret_high ushort_ret_low simp_thms)

end
