(* ===== verification/Ruby.thy ===== *)
theory Ruby
  imports PearsonSpec
begin

text \<open>
  The Ruby versions in the comments of \<open>src/pearson-hashing.c\<close>: \<open>phash_rfc3074\<close>
  (lines 45--50) and \<open>phash_original\<close> (lines 81--86). Ruby is dynamically typed,
  so a value is an \<open>rb_val\<close> (\<open>Integer\<close>, \<open>nil\<close>, \<open>true\<close>/\<open>false\<close>) and the
  operations the two methods use are written with Ruby's semantics:
  \<open>Integer#^\<close> on two Integers is the bitwise XOR and raises \<open>TypeError\<close> on any
  other argument; \<open>NilClass#^\<close>, \<open>TrueClass#^\<close> and \<open>FalseClass#^\<close> return a
  boolean; \<open>Array#[]\<close> returns \<open>nil\<close> outside the array, counts a negative index
  from the end and raises \<open>TypeError\<close> on a non-Integer index. A string is its
  list of characters, each its byte encoding: \<open>String#length\<close> counts the
  characters, \<open>getbyte\<close> and \<open>each_byte\<close> see the bytes. The table \<open>T\<close> is the
  C table \<open>pearson_T\<close> as Integers. The shared block \<open>h = T[h ^ x]\<close> is
  \<open>rb_step\<close>.
\<close>

unbundle bit_operations_syntax

datatype rb_val = RInt int | RNil | RBool bool

datatype rb_error = TypeError

type_synonym 'a rres = "rb_error + 'a"

type_synonym rb_string = "u8 list list"

definition rb_truthy :: "rb_val \<Rightarrow> bool" where
  "rb_truthy v \<longleftrightarrow> v \<noteq> RNil \<and> v \<noteq> RBool False"

fun rb_xor :: "rb_val \<Rightarrow> rb_val \<Rightarrow> rb_val rres" where
  "rb_xor (RInt a) (RInt b) = Inr (RInt (a XOR b))"
| "rb_xor (RInt a) _ = Inl TypeError"
| "rb_xor RNil v = Inr (RBool (rb_truthy v))"
| "rb_xor (RBool p) v = Inr (RBool (p \<noteq> rb_truthy v))"

fun rb_index :: "int list \<Rightarrow> rb_val \<Rightarrow> rb_val rres" where
  "rb_index xs (RInt i) =
     Inr (if 0 \<le> i \<and> i < int (length xs) then RInt (xs ! nat i)
          else if - int (length xs) \<le> i \<and> i < 0 then RInt (xs ! nat (int (length xs) + i))
          else RNil)"
| "rb_index xs _ = Inl TypeError"

definition rb_T :: "int list" where
  "rb_T = map uint pearson_T"

definition rb_bytes :: "rb_string \<Rightarrow> u8 list" where
  "rb_bytes s = concat s"

definition rb_getbyte :: "rb_string \<Rightarrow> int \<Rightarrow> rb_val" where
  "rb_getbyte s i =
     (let bs = rb_bytes s; n = int (length bs) in
      if 0 \<le> i \<and> i < n then RInt (uint (bs ! nat i))
      else if - n \<le> i \<and> i < 0 then RInt (uint (bs ! nat (n + i)))
      else RNil)"

definition rb_step :: "rb_val \<Rightarrow> rb_val \<Rightarrow> rb_val rres" where
  "rb_step h x = cbind (rb_xor h x) (rb_index rb_T)"

fun rb_rfc_loop :: "rb_string \<Rightarrow> nat \<Rightarrow> rb_val \<Rightarrow> rb_val rres" where
  "rb_rfc_loop key 0 h = Inr h"
| "rb_rfc_loop key (Suc i) h = cbind (rb_step h (rb_getbyte key (int i))) (rb_rfc_loop key i)"

definition ruby_rfc3074 :: "rb_string \<Rightarrow> rb_val rres" where
  "ruby_rfc3074 key = rb_rfc_loop key (length key) (RInt (int (length key)))"

fun rb_each_byte :: "u8 list \<Rightarrow> rb_val \<Rightarrow> rb_val rres" where
  "rb_each_byte [] h = Inr h"
| "rb_each_byte (c # cs) h = cbind (rb_step h (RInt (uint c))) (rb_each_byte cs)"

definition ruby_original :: "rb_string \<Rightarrow> rb_val rres" where
  "ruby_original key = rb_each_byte (rb_bytes key) (RInt 0)"

definition rb_wf :: "rb_string \<Rightarrow> bool" where
  "rb_wf s \<longleftrightarrow> (\<forall>c \<in> set s. c \<noteq> [])"

subsection \<open>The fold step on Integers\<close>

lemma length_rb_T [simp]: "length rb_T = 256"
  by (simp add: rb_T_def)

lemma rb_step_byte: "rb_step (RInt (uint h)) (RInt (uint c)) = Inr (RInt (uint (fold_byte h c)))"
proof -
  have "uint h XOR uint c = uint (h XOR c)"
    by (rule xor_uint_eq)
  moreover have "rb_T ! unat (h XOR c) = uint (fold_byte h c)"
    using unat_u8_less [of "h XOR c"] by (simp add: rb_T_def fold_byte_def pearson_lookup_def)
  ultimately show ?thesis
    using uint_u8_less [of "h XOR c"] by (simp add: rb_step_def nat_uint_eq)
qed

lemma int_xor_byte_ge:
  fixes n b :: int
  assumes "256 \<le> n" and "0 \<le> b" and "b < 256"
  shows "256 \<le> n XOR b"
proof -
  have "drop_bit 8 b = 0"
    using assms(2,3) by (simp add: drop_bit_eq_div)
  then have "drop_bit 8 (n XOR b) = drop_bit 8 n"
    by (simp add: drop_bit_xor)
  then have "(n XOR b) div 256 = n div 256"
    by (simp add: drop_bit_eq_div)
  moreover have "1 \<le> n div 256"
    using assms(1) by simp
  moreover have "n XOR b = 256 * ((n XOR b) div 256) + (n XOR b) mod 256"
    by simp
  moreover have "0 \<le> (n XOR b) mod 256"
    by simp
  ultimately show ?thesis
    by linarith
qed

lemma uint_word_of_nat_small: "n < 256 \<Longrightarrow> uint (word_of_nat n :: u8) = int n"
  by (simp add: unsigned_of_nat take_bit_eq_mod)

subsection \<open>Strings\<close>

lemma length_rb_bytes: "rb_wf s \<Longrightarrow> length s \<le> length (rb_bytes s)"
proof (induction s)
  case Nil
  then show ?case by simp
next
  case (Cons c s)
  then show ?case
    by (cases c) (simp_all add: rb_wf_def rb_bytes_def)
qed

lemma rb_getbyte_in: "i < length (rb_bytes s) \<Longrightarrow> rb_getbyte s (int i) = RInt (uint (rb_bytes s ! i))"
  by (simp add: rb_getbyte_def)

lemma rb_bytes_single: "\<forall>c \<in> set s. length c = 1 \<Longrightarrow> rb_bytes s = map hd s"
proof (induction s)
  case Nil
  then show ?case by (simp add: rb_bytes_def)
next
  case (Cons c s)
  then obtain x where "c = [x]"
    by (cases c) simp_all
  with Cons show ?case
    by (simp add: rb_bytes_def)
qed

subsection \<open>The loops\<close>

lemma rb_each_byte_pearson: "rb_each_byte cs (RInt (uint h)) = Inr (RInt (uint (pearson h cs)))"
  by (induction cs arbitrary: h) (simp_all add: rb_step_byte)

lemma rb_rfc_loop_bytes:
  "i \<le> length (rb_bytes key) \<Longrightarrow>
   rb_rfc_loop key i (RInt (uint h)) = Inr (RInt (uint (pearson h (rev (take i (rb_bytes key))))))"
proof (induction i arbitrary: h)
  case 0
  then show ?case by simp
next
  case (Suc i)
  then have i: "i < length (rb_bytes key)" by simp
  then have "take (Suc i) (rb_bytes key) = take i (rb_bytes key) @ [rb_bytes key ! i]"
    by (rule take_Suc_conv_app_nth)
  with i Suc.IH [of "fold_byte h (rb_bytes key ! i)"] show ?case
    by (simp add: rb_getbyte_in rb_step_byte)
qed

lemma ruby_rfc3074_eq:
  assumes "rb_wf key" and "length key \<le> 255"
  shows "ruby_rfc3074 key =
           Inr (RInt (uint (pearson (word_of_nat (length key)) (rev (take (length key) (rb_bytes key))))))"
  using rb_rfc_loop_bytes [of "length key" key "word_of_nat (length key)"] length_rb_bytes [OF assms(1)]
    uint_word_of_nat_small [of "length key"] assms(2)
  by (simp add: ruby_rfc3074_def)

lemma ruby_rfc3074_single:
  assumes "\<forall>c \<in> set key. length c = 1" and "length key \<le> 255"
  shows "ruby_rfc3074 key = Inr (RInt (uint (pearson (word_of_nat (length key)) (rev (rb_bytes key)))))"
proof -
  have wf: "rb_wf key"
    using assms(1) by (auto simp: rb_wf_def)
  have "length (rb_bytes key) = length key"
    using rb_bytes_single [OF assms(1)] by simp
  then show ?thesis
    using ruby_rfc3074_eq [OF wf assms(2)] by simp
qed

lemma rb_step_non_int: "rb_step RNil x = Inl TypeError" "rb_step (RBool p) x = Inl TypeError"
  by (simp_all add: rb_step_def)

lemma rb_step_big:
  "256 \<le> n \<Longrightarrow> rb_step (RInt n) (RInt (uint (b :: u8))) = Inr RNil"
  using int_xor_byte_ge [of n "uint b"] uint_u8_less [of b] by (simp add: rb_step_def)

lemma rb_rfc_loop_big:
  "256 \<le> n \<Longrightarrow> Suc i < length (rb_bytes key) \<Longrightarrow> rb_rfc_loop key (Suc (Suc i)) (RInt n) = Inl TypeError"
  by (simp add: rb_getbyte_in rb_step_big rb_step_non_int del: of_nat_Suc)

lemma ruby_original_eq_wikipedia: "ruby_original key = Inr (RInt (uint (hash_wikipedia (rb_bytes key))))"
  using rb_each_byte_pearson [of "rb_bytes key" 0] by (simp add: ruby_original_def hash_wikipedia_def)

subsection \<open>Properties of the Ruby versions\<close>

text \<open>
  C28. The Ruby \<open>phash_rfc3074\<close> (lines 45--50) on a string of at most 255
  characters: the seed is \<open>key.length\<close>, the number of characters, and
  \<open>getbyte(i)\<close> for \<open>i\<close> from \<open>key.length - 1\<close> down to 0 folds the first
  \<open>key.length\<close> bytes in reverse, so a string with multi-byte characters is not
  hashed over all its bytes.
\<close>

theorem ruby_rfc3074_chars:
  assumes "rb_wf key" and "length key \<le> 255"
  shows "ruby_rfc3074 key =
           Inr (RInt (uint (pearson (word_of_nat (length key)) (rev (take (length key) (rb_bytes key))))))"
  using assms by (rule ruby_rfc3074_eq)

theorem ruby_rfc3074_chars_witness:
  "[195, 169 :: u8] \<noteq> [] \<and> length [[195 :: u8, 169]] \<le> 255 \<and>
   ruby_rfc3074 [[195, 169]] =
     Inr (RInt (uint (pearson (word_of_nat (length [[195 :: u8, 169]]))
                        (rev (take (length [[195 :: u8, 169]]) (rb_bytes [[195, 169]]))))))"
  using ruby_rfc3074_chars [of "[[195, 169]]"] by (simp add: rb_wf_def)

text \<open>
  C27. On a string of 256 characters or more the Ruby \<open>phash_rfc3074\<close> raises
  \<open>TypeError\<close>: the first step indexes \<open>T\<close> at \<open>key.length ^ byte \<ge> 256\<close> and gets
  \<open>nil\<close>, the second computes \<open>nil ^ byte = true\<close> and \<open>T[true]\<close> raises.
\<close>

theorem ruby_rfc3074_long:
  assumes "rb_wf key" and "256 \<le> length key"
  shows "ruby_rfc3074 key = Inl TypeError"
proof -
  define m where "m = length key - 2"
  have m: "length key = Suc (Suc m)"
    using assms(2) by (simp add: m_def)
  have "Suc m < length (rb_bytes key)"
    using length_rb_bytes [OF assms(1)] m by simp
  then show ?thesis
    using rb_rfc_loop_big [of "int (length key)" m key] assms(2) by (simp add: ruby_rfc3074_def m)
qed

theorem ruby_rfc3074_long_witness:
  "[97 :: u8] \<noteq> [] \<and> 256 \<le> length (replicate 256 [97 :: u8]) \<and>
   ruby_rfc3074 (replicate 256 [97]) = Inl TypeError"
  using ruby_rfc3074_long [of "replicate 256 [97]"] by (simp add: rb_wf_def)

end
