(* ===== verification/Go.thy ===== *)
theory Go
  imports PearsonSpec
begin

text \<open>
  The Go versions in the comments of \<open>src/pearson-hashing.c\<close>: \<open>phash_rfc3074\<close>
  (lines 52--57) and \<open>phash_original\<close> (lines 88--92). A Go string is a byte
  sequence and \<open>len\<close> counts bytes; \<open>byte(n)\<close> keeps the low 8 bits; the result
  \<open>h\<close> and the counter \<open>i := h\<close> are bytes, so \<open>i--\<close> is byte arithmetic;
  indexing a string or the table outside its length panics, which is the error
  \<open>Index_out_of_range\<close> of \<open>'a gres\<close>. The table \<open>T\<close> is the C table
  \<open>pearson_T\<close>. The shared statement \<open>h = T[h^c]\<close> is \<open>go_step\<close>. The loop of
  \<open>phash_rfc3074\<close> counts a byte down, so it is a \<open>function\<close> whose measure is
  \<open>unat i\<close>.
\<close>

unbundle bit_operations_syntax

datatype go_panic = Index_out_of_range int int

type_synonym 'a gres = "go_panic + 'a"

definition go_index :: "u8 list \<Rightarrow> int \<Rightarrow> u8 gres" where
  "go_index xs i =
     (if 0 \<le> i \<and> i < int (length xs) then Inr (xs ! nat i)
      else Inl (Index_out_of_range i (int (length xs))))"

definition go_T :: "u8 list" where
  "go_T = pearson_T"

definition go_step :: "u8 \<Rightarrow> u8 \<Rightarrow> u8 gres" where
  "go_step h c = go_index go_T (uint (h XOR c))"

function go_rfc_loop :: "u8 list \<Rightarrow> u8 \<Rightarrow> u8 \<Rightarrow> u8 gres" where
  "go_rfc_loop key i h =
     (if 0 < i then
        cbind (go_index key (uint (i - 1))) (\<lambda>c.
        cbind (go_step h c) (\<lambda>h'. go_rfc_loop key (i - 1) h'))
      else Inr h)"
  by pat_completeness auto
termination
  by (relation "measure (\<lambda>(key, i, h). unat i)") (auto simp: unat_pred_less)

declare go_rfc_loop.simps [simp del]

definition go_rfc3074 :: "u8 list \<Rightarrow> u8 gres" where
  "go_rfc3074 key = (let h = word_of_nat (length key) in go_rfc_loop key h h)"

fun go_range :: "u8 list \<Rightarrow> u8 \<Rightarrow> u8 gres" where
  "go_range [] h = Inr h"
| "go_range (c # cs) h = cbind (go_step h c) (go_range cs)"

definition go_original :: "u8 list \<Rightarrow> u8 gres" where
  "go_original key = go_range key 0"

subsection \<open>The fold step and the loops\<close>

lemma go_step_eq [simp]: "go_step h c = Inr (fold_byte h c)"
  using uint_u8_less [of "h XOR c"]
  by (simp add: go_step_def go_index_def go_T_def fold_byte_def pearson_lookup_def nat_uint_eq)

lemma go_range_pearson: "go_range cs h = Inr (pearson h cs)"
  by (induction cs arbitrary: h) simp_all

lemma go_rfc_loop_take:
  "unat i \<le> length key \<Longrightarrow> go_rfc_loop key i h = Inr (pearson h (rev (take (unat i) key)))"
proof (induction key i h rule: go_rfc_loop.induct)
  case (1 key i h)
  show ?case
  proof (cases "i = 0")
    case True
    then show ?thesis
      by (simp add: go_rfc_loop.simps [of key 0 h])
  next
    case False
    then have u: "unat (i - 1) = unat i - 1" and pos: "0 < unat i"
      by (simp_all add: unat_minus_one unat_gt_0)
    then have lt: "unat i - 1 < length key"
      using "1.prems" by simp
    have idx: "go_index key (uint (i - 1)) = Inr (key ! (unat i - 1))"
      using lt u by (simp add: go_index_def uint_nat)
    have tk: "take (unat i) key = take (unat i - 1) key @ [key ! (unat i - 1)]"
      using lt pos take_Suc_conv_app_nth [of "unat i - 1" key] by simp
    have "go_rfc_loop key (i - 1) (fold_byte h (key ! (unat i - 1))) =
          Inr (pearson (fold_byte h (key ! (unat i - 1))) (rev (take (unat i - 1) key)))"
      using "1.IH" [of "key ! (unat i - 1)" "fold_byte h (key ! (unat i - 1))"] False idx u "1.prems"
      by (simp add: word_neq_0_conv)
    then show ?thesis
      using False idx tk by (simp add: go_rfc_loop.simps [of key i h] word_neq_0_conv)
  qed
qed

lemma unat_word_of_nat_mod: "unat (word_of_nat n :: u8) = n mod 256"
  by (simp add: unat_of_nat)

lemma go_rfc3074_eq:
  "go_rfc3074 key = Inr (pearson (word_of_nat (length key)) (rev (take (length key mod 256) key)))"
  using go_rfc_loop_take [of "word_of_nat (length key)" key] unat_word_of_nat_mod [of "length key"]
  by (simp add: go_rfc3074_def)

lemma go_original_eq_wikipedia: "go_original key = Inr (hash_wikipedia key)"
  by (simp add: go_original_def go_range_pearson hash_wikipedia_def)

subsection \<open>Properties of the Go versions\<close>

text \<open>
  C29. The Go \<open>phash_rfc3074\<close> (lines 52--57) never panics and, because the counter
  \<open>i := h\<close> starts at \<open>byte(len(key))\<close>, hashes only the first
  \<open>len(key) mod 256\<close> bytes, in reverse, from the seed \<open>len(key) mod 256\<close>.
\<close>

theorem go_rfc3074_mod:
  "go_rfc3074 key = Inr (pearson (word_of_nat (length key)) (rev (take (length key mod 256) key)))"
  by (rule go_rfc3074_eq)

end
