(* ===== verification/Spec2Isabelle.thy ===== *)
theory Spec2Isabelle
  imports Rfc3074 Original Hash16 Ruby Go
begin

text \<open>
  \<^bold>\<open>Pearson hashing in C: a verification development.\<close>

  \<^emph>\<open>The program.\<close> \<open>src/pearson-hashing.c\<close> is one translation unit: the
  permutation table \<open>pearson_T\<close> (lines 15--33) and four functions over
  NUL-terminated C strings. \<open>phash_rfc3074\<close> (37--42) seeds the hash with the
  string length truncated to a byte and folds \<open>h = pearson_T[h ^ c]\<close> over the
  bytes from last to first; \<open>phash_original\<close> (63--69) keeps every intermediate
  hash in a heap array and reads \<open>hash[i - 1]\<close> also for \<open>i = 0\<close>;
  \<open>phash_wikipedia\<close> (74--78) folds from 0 over the bytes in order;
  \<open>phash16\<close> (97--105) copies the key into a heap buffer, hashes it with
  \<open>phash_wikipedia\<close>, perturbs the first byte to \<open>(b + 1) % 255\<close>, hashes again
  and returns \<open>(h1 << 8) + h2\<close>. The functions share only the table and the fold
  step; \<open>phash16\<close> calls \<open>phash_wikipedia\<close> twice. There is no other state.
  Two comments hold a Ruby and a Go version of \<open>phash_rfc3074\<close> (44--58) and of
  \<open>phash_original\<close> (80--93); they are code of the repository too and are
  modelled in their own languages' semantics.

  \<^emph>\<open>How it is modelled.\<close> Each C function is a HOL function over an explicit
  memory object, with the undefined behaviour of C as an error value
  (\<open>c_error + 'a\<close>): a read outside an object or of an indeterminate heap byte,
  a write outside an object, a subscript of the table outside \<open>0..255\<close>.
  \<^item> \<open>Prelude\<close>: machine types (\<open>u8\<close>, \<open>u16\<close>, \<open>size_t\<close>), \<open>cbind\<close> and the
    word lemmas the components share.
  \<^item> \<open>CRuntime\<close>: what the C standard and library give the program, modelled
    from the standard: the signedness of plain \<open>char\<close> as a parameter
    (\<open>char_kind\<close>, \<open>char_val\<close>), memory objects (\<open>mem_obj\<close>, \<open>obj_read\<close>,
    \<open>obj_write\<close>), \<open>strlen\<close>, \<open>malloc\<close> over an \<open>allocator\<close> (slack beyond
    the request, bytes below a block, and whether the request fails, in which
    case \<open>malloc\<close> returns \<open>NULL\<close> and \<open>deref\<close> makes its first use an error), \<open>memcpy\<close>, the remainder \<open>c_rem\<close>.
  \<^item> \<open>PearsonTable\<close>: \<open>pearson_T\<close>, the subscript \<open>pearson_T[hash ^ c]\<close>
    (\<open>pearson_step\<close>), the lookup \<open>pearson_lookup\<close>; the table is a permutation.
  \<^item> \<open>PearsonSpec\<close>: the abstract specification of \<open>spec.md\<close> over byte lists
    (\<open>pearson\<close>, \<open>hash_wikipedia\<close>, \<open>hash_rfc3074\<close>, \<open>hash_original\<close>,
    \<open>hash16\<close>) and the algorithm's own properties.
  \<^item> \<open>Wikipedia\<close>: \<open>phash_wikipedia\<close> and its loop \<open>wiki_loop\<close>, which
    reads \<open>key[k]\<close> until NUL (a \<open>function\<close> whose measure is the cells left in
    the object, so it terminates on every object, terminated or not).
  \<^item> \<open>Rfc3074\<close>: \<open>phash_rfc3074\<close>, the seed \<open>rfc_seed\<close> (\<open>size_t\<close> to
    \<open>unsigned char\<close>) and the countdown loop \<open>rfc_loop\<close> (structural on \<open>i\<close>).
  \<^item> \<open>Original\<close>: \<open>phash_original\<close>, the loop \<open>orig_loop\<close> over the heap array
    and the wrapped subscript \<open>orig_index i = (ssize_t)(size_t)(i - 1)\<close>, which
    is \<open>-1\<close> at \<open>i = 0\<close>; the loop's measure is \<open>len - i\<close>.
  \<^item> \<open>Hash16\<close>: \<open>phash16\<close> as the sequence \<open>strlen\<close>, \<open>malloc\<close>, \<open>memcpy\<close>,
    \<open>buffer[length] = 0\<close>, \<open>phash_wikipedia\<close>, the perturbation \<open>perturb_char\<close>,
    \<open>phash_wikipedia\<close>, the packing \<open>ushort_ret\<close>; each step's error stops it.
  \<^item> \<open>Ruby\<close>: the Ruby versions over dynamically typed values \<open>rb_val\<close>
    (Integer, \<open>nil\<close>, booleans) with \<open>TypeError\<close> as the error; \<open>rb_step\<close> is
    \<open>h = T[h ^ x]\<close>, \<open>rb_rfc_loop\<close> the \<open>downto\<close> loop, \<open>rb_each_byte\<close> the
    \<open>each_byte\<close> block; a string is a list of characters, each its bytes.
  \<^item> \<open>Go\<close>: the Go versions over bytes with the index panic as the error;
    \<open>go_step\<close> is \<open>h = T[h^c]\<close>, \<open>go_rfc_loop\<close> the loop on the byte counter
    \<open>i\<close> (a \<open>function\<close> with measure \<open>unat i\<close>), \<open>go_range\<close> the \<open>range\<close> loop.
  \<^item> This theory: the properties that relate two variants or two languages.
  No fuel is needed: every loop is a terminating \<open>function\<close> or \<open>fun\<close>. Keys
  are bounded only where \<open>size_t\<close> arithmetic needs it (\<open>length < 2^63\<close> in
  \<open>Original\<close>, so that \<open>i - 1\<close> read as signed is the mathematical value).

  \<^emph>\<open>What is proved.\<close> Refinement of the specification by each function on the
  inputs where C defines it: \<open>phash_wikipedia\<close> and \<open>phash_rfc3074\<close> on C
  strings whose chars promote to non-negative values (C1, C2); \<open>phash16\<close> with a
  spare heap byte and a successful allocation, on unsigned \<open>char\<close> for a first
  byte other than \<open>0xFE\<close> (C5) and on signed \<open>char\<close> for ASCII keys whose first
  byte is not \<open>0x7F\<close> (C21); \<open>phash_original\<close> against \<open>phash_wikipedia\<close> when
  the byte below its block is 0 (C8), through the invariant of its heap loop
  (C13). The table is a permutation (C6) and every byte of the key influences the
  digest (C12, C22). Error theorems pin the undefined behaviour: \<open>hash[-1]\<close> in
  \<open>phash_original\<close> (C3, C10, C14), the one-byte heap overflow in \<open>phash16\<close>
  (C4, C18), negative table subscripts with signed \<open>char\<close> (C7, C11, C17), the
  read past an unterminated key (C24); the loop of \<open>phash_wikipedia\<close> reads
  nothing past the terminator (C23). The perturbation on both platforms (C15,
  C16) and the 16-bit packing (C9, C19, C20) are characterised. Across languages:
  the C, Ruby and Go versions agree (C25, C26) and the script versions the
  comments call \<open>phash_original\<close> compute \<open>hash_wikipedia\<close> (C30), except where
  the scripts diverge: the Go counter \<open>byte(len)\<close> hashes only the first
  \<open>len mod 256\<close> bytes (C29), and the Ruby version raises \<open>TypeError\<close> from 256
  characters on (C27) and seeds with the character count, not the byte count
  (C28). A failed \<open>malloc\<close> is modelled (the theorems over an arbitrary
  allocator assume the allocation succeeds); termination of every loop is the
  termination proof of its \<open>function\<close> or \<open>fun\<close>.

  \<^emph>\<open>Not modelled.\<close> \<open>free\<close> (lines 67 and 103): in both functions it is
  the last use of the pointer, its argument is the block \<open>malloc\<close> returned
  (a null pointer has already been used, which is an error of the model, before
  \<open>free\<close> is reached), and nothing is read after it, so it affects no result and
  no error the model describes; a step for it would be a no-op. Concurrency
  (there is no shared mutable state) and the \<open>#include\<close> lines 1--3 (headers;
  the library functions they declare are modelled in \<open>CRuntime\<close>). With these
  exceptions every line of code of \<open>src/pearson-hashing.c\<close> is modelled; the
  other lines are comments. The table \<open>T\<close> the Ruby and Go versions
  index is not in the comments; it is taken to be \<open>pearson_T\<close>. Every function
  is a single terminating pass with no reactive behaviour, so there is no liveness
  property to state.
\<close>

section \<open>Properties across the variants\<close>

unbundle bit_operations_syntax

text \<open>
  C8. The specification's reading of \<open>phash_original\<close> (design note: take
  \<open>hash[-1]\<close> as 0): when the byte below the block is 0, \<open>phash_original\<close> and
  \<open>phash_wikipedia\<close> return the same digest on every C string, the empty one
  included.
\<close>

theorem phash_original_zero_header_eq_wikipedia:
  assumes "header A (-1) = Some 0" and "holds_str p bs" and "0 \<notin> set bs"
    and "chars_ok ck bs" and "length bs < 2 ^ 63" and "\<not> fails A (length bs)"
  shows "phash_original A ck p = phash_wikipedia ck p"
  using phash_original_header_seed [OF assms] wiki_loop_holds_str [of p bs 0 ck 0] assms(2-4)
  by (simp add: phash_wikipedia_def)

theorem phash_original_zero_header_eq_wikipedia_witness:
  "header \<lparr>slack = (\<lambda>_. 0), header = (\<lambda>_. Some 0), fails = (\<lambda>_. False)\<rparr> (-1) = Some 0 \<and>
   holds_str (c_str [104, 105]) [104, 105] \<and> 0 \<notin> set [104, 105 :: u8] \<and>
   chars_ok Signed_char [104, 105] \<and> length [104, 105 :: u8] < 2 ^ 63 \<and>
   \<not> fails \<lparr>slack = (\<lambda>_. 0), header = (\<lambda>_. Some 0), fails = (\<lambda>_. False)\<rparr> (length [104, 105 :: u8]) \<and>
   phash_original \<lparr>slack = (\<lambda>_. 0), header = (\<lambda>_. Some 0), fails = (\<lambda>_. False)\<rparr> Signed_char (c_str [104, 105]) =
   phash_wikipedia Signed_char (c_str [104, 105])"
  using phash_original_zero_header_eq_wikipedia [of "\<lparr>slack = (\<lambda>_. 0), header = (\<lambda>_. Some 0), fails = (\<lambda>_. False)\<rparr>"
      "c_str [104, 105]" "[104, 105]" Signed_char]
  by (simp add: char_ok_def)

text \<open>
  C9. The high byte of \<open>phash16\<close> is \<open>phash_wikipedia\<close> of the key itself
  (\<open>spec.md\<close>, section 8, "hash16 structure"), whenever \<open>phash16\<close> is defined.
\<close>

theorem phash16_high_byte_wikipedia:
  assumes "0 < slack A (length (b # rest))" and "holds_str p (b # rest)" and "0 \<notin> set (b # rest)"
    and "chars_ok ck (b # rest)" and "chars_ok ck (takeWhile (\<lambda>x. x \<noteq> 0) (perturb_char ck b # rest))"
    and "\<not> fails A (length (b # rest))"
  shows "\<exists>h1 h. phash_wikipedia ck p = Inr h1 \<and> phash16 A ck p = Inr h \<and> drop_bit 8 h = ucast h1"
  using phash16_slack [OF assms] wiki_loop_holds_str [of p "b # rest" 0 ck 0] assms(2-4)
  by (simp add: phash_wikipedia_def hash_wikipedia_def ushort_ret_high)

theorem phash16_high_byte_wikipedia_witness:
  "0 < slack \<lparr>slack = (\<lambda>_. 8), header = (\<lambda>_. None), fails = (\<lambda>_. False)\<rparr> (length [104 :: u8, 105]) \<and>
   holds_str (c_str [104, 105]) [104, 105] \<and> 0 \<notin> set [104 :: u8, 105] \<and>
   chars_ok Signed_char [104, 105] \<and>
   chars_ok Signed_char (takeWhile (\<lambda>x. x \<noteq> 0) [perturb_char Signed_char 104, 105]) \<and>
   \<not> fails \<lparr>slack = (\<lambda>_. 8), header = (\<lambda>_. None), fails = (\<lambda>_. False)\<rparr> (length [104 :: u8, 105]) \<and>
   (\<exists>h1 h. phash_wikipedia Signed_char (c_str [104, 105]) = Inr h1 \<and>
      phash16 \<lparr>slack = (\<lambda>_. 8), header = (\<lambda>_. None), fails = (\<lambda>_. False)\<rparr> Signed_char (c_str [104, 105]) = Inr h \<and>
      drop_bit 8 h = ucast h1)"
  using phash16_high_byte_wikipedia [of "\<lparr>slack = (\<lambda>_. 8), header = (\<lambda>_. None), fails = (\<lambda>_. False)\<rparr>" 104 "[105]"
      "c_str [104, 105]" Signed_char]
  by (simp add: char_ok_def perturb_char_signed)

text \<open>
  C26. The three versions of \<open>phash_rfc3074\<close> in the file agree on every key of at
  most 255 one-byte characters: the C function on the C string, the Go version on
  its bytes and the Ruby version on the string of its bytes.
\<close>

theorem versions_rfc3074_agree:
  assumes "holds_str p bs" and "0 \<notin> set bs" and "chars_ok ck bs" and "length bs \<le> 255"
  shows "\<exists>h. phash_rfc3074 ck p = Inr h \<and> go_rfc3074 bs = Inr h \<and>
             ruby_rfc3074 (map (\<lambda>b. [b]) bs) = Inr (RInt (uint h))"
proof -
  have "ruby_rfc3074 (map (\<lambda>b. [b]) bs) =
          Inr (RInt (uint (pearson (word_of_nat (length bs)) (rev bs))))"
    using ruby_rfc3074_single [of "map (\<lambda>b. [b]) bs"] assms(4)
    by (simp add: rb_bytes_def)
  then show ?thesis
    using phash_rfc3074_holds_str [OF assms(1-3)] go_rfc3074_eq [of bs] assms(4) by simp
qed

theorem versions_rfc3074_agree_witness:
  "holds_str (c_str [104, 105]) [104, 105] \<and> 0 \<notin> set [104, 105 :: u8] \<and>
   chars_ok Signed_char [104, 105] \<and> length [104, 105 :: u8] \<le> 255 \<and>
   (\<exists>h. phash_rfc3074 Signed_char (c_str [104, 105]) = Inr h \<and> go_rfc3074 [104, 105] = Inr h \<and>
        ruby_rfc3074 (map (\<lambda>b. [b]) [104, 105]) = Inr (RInt (uint h)))"
  using versions_rfc3074_agree [of "c_str [104, 105]" "[104, 105]" Signed_char]
  by (simp add: char_ok_def)

text \<open>
  C25. The versions the comments call \<open>phash_original\<close> (Ruby and Go) compute
  what the C \<open>phash_wikipedia\<close> computes: on a C string whose characters promote
  to non-negative values, and any Ruby string with the same bytes, the three
  digests are equal.
\<close>

theorem versions_wikipedia_agree:
  assumes "holds_str p bs" and "0 \<notin> set bs" and "chars_ok ck bs" and "rb_bytes key = bs"
  shows "\<exists>h. phash_wikipedia ck p = Inr h \<and> go_original bs = Inr h \<and>
             ruby_original key = Inr (RInt (uint h))"
  using wiki_loop_holds_str [of p bs 0 ck 0] go_range_pearson [of bs 0] rb_each_byte_pearson [of bs 0] assms
  by (simp add: phash_wikipedia_def go_original_def ruby_original_def)

theorem versions_wikipedia_agree_witness:
  "holds_str (c_str [195, 169]) [195, 169] \<and> 0 \<notin> set [195, 169 :: u8] \<and>
   chars_ok Unsigned_char [195, 169] \<and> rb_bytes [[195, 169]] = [195, 169] \<and>
   (\<exists>h. phash_wikipedia Unsigned_char (c_str [195, 169]) = Inr h \<and> go_original [195, 169] = Inr h \<and>
        ruby_original [[195, 169]] = Inr (RInt (uint h)))"
  using versions_wikipedia_agree [of "c_str [195, 169]" "[195, 169]" Unsigned_char "[[195, 169]]"]
  by (simp add: char_ok_def rb_bytes_def)

text \<open>
  C30. The Ruby and Go versions the comments call \<open>phash_original\<close> (lines 81--86
  and 88--92) compute the specification's \<open>hash_wikipedia\<close> on every string, the
  empty one included (where the specification's \<open>hashOriginal\<close> raises): the Ruby
  \<open>h\<close> stays an Integer byte through \<open>each_byte\<close>, and the Go subscript
  \<open>h^c\<close> is a byte, so it never panics.
\<close>

theorem scripts_original_eq_wikipedia:
  "ruby_original key = Inr (RInt (uint (hash_wikipedia (rb_bytes key)))) \<and>
   go_original bs = Inr (hash_wikipedia bs)"
  by (simp add: ruby_original_eq_wikipedia go_original_eq_wikipedia)

end
